theory Spec2Isabelle
  imports Main "HOL-Library.AList"
begin

section \<open>Data model (shared/schema.ts)\<close>

text \<open>
  Identifiers are the serial keys of the tables (natural numbers, the counters start
  at 1). A \<open>Date\<close> is its millisecond reading. Decimal columns are strings, as the
  inferred TypeScript types have them.
\<close>

datatype role = role_buyer | role_seller

datatype projectStatus = pj_open | pj_pending | pj_in_progress | pj_completed | pj_cancelled

datatype proposalStatus = pending | accepted | rejected | completed | cancelled

datatype paymentStatus = pay_pending | pay_completed | pay_refunded | pay_failed

record user =
  u_id :: nat
  u_name :: string
  u_email :: string
  u_password :: string
  u_role :: role
  u_createdAt :: nat

record insertUser =
  iu_name :: string
  iu_email :: string
  iu_password :: string
  iu_role :: role

record project =
  pj_id :: nat
  pj_title :: string
  pj_description :: string
  pj_budget :: string
  pj_deadline :: nat
  pj_status :: projectStatus
  pj_buyerId :: nat
  pj_createdAt :: nat

record insertProject =
  ipj_title :: string
  ipj_description :: string
  ipj_budget :: string
  ipj_deadline :: nat
  ipj_buyerId :: nat

record proposal =
  pp_id :: nat
  pp_serviceDetails :: string
  pp_price :: string
  pp_deliveryTime :: int
  pp_status :: proposalStatus
  pp_projectId :: nat
  pp_sellerId :: nat
  pp_createdAt :: nat

record insertProposal =
  ipp_serviceDetails :: string
  ipp_price :: string
  ipp_deliveryTime :: int
  ipp_projectId :: nat
  ipp_sellerId :: nat

record payment =
  pay_id :: nat
  pay_amount :: string
  pay_commission :: string
  pay_status :: paymentStatus
  pay_projectId :: nat
  pay_buyerId :: nat
  pay_sellerId :: nat
  pay_stripePaymentIntentId :: "string option"
  pay_createdAt :: nat

record insertPayment =
  ipay_amount :: string
  ipay_commission :: string
  ipay_projectId :: nat
  ipay_buyerId :: nat
  ipay_sellerId :: nat
  ipay_stripePaymentIntentId :: "string option"

section \<open>MemStorage (server/storage.ts)\<close>

text \<open>
  A JavaScript \<open>Map\<close> keeps its entries in insertion order; \<open>set\<close> on a present key
  replaces the value in place and on an absent key appends. That is an association list
  with \<open>map_of\<close> for \<open>get\<close>, \<open>AList.update\<close> for \<open>set\<close> and \<open>map snd\<close> for \<open>values()\<close>.
  The message table plays no part in the proposal and payment operations and is left out.
\<close>

record storage =
  users :: "(nat \<times> user) list"
  projects :: "(nat \<times> project) list"
  proposals :: "(nat \<times> proposal) list"
  payments :: "(nat \<times> payment) list"
  userIdCounter :: nat
  projectIdCounter :: nat
  proposalIdCounter :: nat
  paymentIdCounter :: nat

definition MemStorage :: storage where
  "MemStorage = \<lparr>users = [], projects = [], proposals = [], payments = [],
     userIdCounter = 1, projectIdCounter = 1, proposalIdCounter = 1, paymentIdCounter = 1\<rparr>"

text \<open>\<open>sort((a, b) => b.createdAt - a.createdAt)\<close>: newest first; the sort is stable.\<close>

definition newestFirst :: "('a \<Rightarrow> nat) \<Rightarrow> 'a list \<Rightarrow> 'a list" where
  "newestFirst created xs = sort_key (\<lambda>x. - int (created x)) xs"

definition getUser :: "storage \<Rightarrow> nat \<Rightarrow> user option" where
  "getUser s i = map_of (users s) i"

definition createUser :: "nat \<Rightarrow> storage \<Rightarrow> insertUser \<Rightarrow> user \<times> storage" where
  "createUser now s iu =
     (let i = userIdCounter s;
          u = \<lparr>u_id = i, u_name = iu_name iu, u_email = iu_email iu,
               u_password = iu_password iu, u_role = iu_role iu, u_createdAt = now\<rparr>
      in (u, s\<lparr>userIdCounter := i + 1, users := AList.update i u (users s)\<rparr>))"

definition getProject :: "storage \<Rightarrow> nat \<Rightarrow> project option" where
  "getProject s i = map_of (projects s) i"

definition createProject :: "nat \<Rightarrow> storage \<Rightarrow> insertProject \<Rightarrow> project \<times> storage" where
  "createProject now s ip =
     (let i = projectIdCounter s;
          p = \<lparr>pj_id = i, pj_title = ipj_title ip, pj_description = ipj_description ip,
               pj_budget = ipj_budget ip, pj_deadline = ipj_deadline ip, pj_status = pj_open,
               pj_buyerId = ipj_buyerId ip, pj_createdAt = now\<rparr>
      in (p, s\<lparr>projectIdCounter := i + 1, projects := AList.update i p (projects s)\<rparr>))"

definition updateProjectStatus :: "storage \<Rightarrow> nat \<Rightarrow> projectStatus \<Rightarrow> project option \<times> storage" where
  "updateProjectStatus s i st =
     (case map_of (projects s) i of
        None \<Rightarrow> (None, s)
      | Some p \<Rightarrow>
          (let p' = p\<lparr>pj_status := st\<rparr>
           in (Some p', s\<lparr>projects := AList.update i p' (projects s)\<rparr>)))"

definition getProposalsByProject :: "storage \<Rightarrow> nat \<Rightarrow> proposal list" where
  "getProposalsByProject s pid =
     newestFirst pp_createdAt (filter (\<lambda>p. pp_projectId p = pid) (map snd (proposals s)))"

definition getProposal :: "storage \<Rightarrow> nat \<Rightarrow> proposal option" where
  "getProposal s i = map_of (proposals s) i"

definition createProposal :: "nat \<Rightarrow> storage \<Rightarrow> insertProposal \<Rightarrow> proposal \<times> storage" where
  "createProposal now s ip =
     (let i = proposalIdCounter s;
          p = \<lparr>pp_id = i, pp_serviceDetails = ipp_serviceDetails ip, pp_price = ipp_price ip,
               pp_deliveryTime = ipp_deliveryTime ip, pp_status = pending,
               pp_projectId = ipp_projectId ip, pp_sellerId = ipp_sellerId ip,
               pp_createdAt = now\<rparr>
      in (p, s\<lparr>proposalIdCounter := i + 1, proposals := AList.update i p (proposals s)\<rparr>))"

definition updateProposalStatus :: "storage \<Rightarrow> nat \<Rightarrow> proposalStatus \<Rightarrow> proposal option \<times> storage" where
  "updateProposalStatus s i st =
     (case map_of (proposals s) i of
        None \<Rightarrow> (None, s)
      | Some p \<Rightarrow>
          (let p' = p\<lparr>pp_status := st\<rparr>
           in (Some p', s\<lparr>proposals := AList.update i p' (proposals s)\<rparr>)))"

definition getPaymentsByBuyer :: "storage \<Rightarrow> nat \<Rightarrow> payment list" where
  "getPaymentsByBuyer s b =
     newestFirst pay_createdAt (filter (\<lambda>p. pay_buyerId p = b) (map snd (payments s)))"

text \<open>\<open>insertPayment.stripePaymentIntentId || null\<close>: an empty string is falsy.\<close>

definition createPayment :: "nat \<Rightarrow> storage \<Rightarrow> insertPayment \<Rightarrow> payment \<times> storage" where
  "createPayment now s ip =
     (let i = paymentIdCounter s;
          p = \<lparr>pay_id = i, pay_amount = ipay_amount ip, pay_commission = ipay_commission ip,
               pay_status = pay_pending, pay_projectId = ipay_projectId ip,
               pay_buyerId = ipay_buyerId ip, pay_sellerId = ipay_sellerId ip,
               pay_stripePaymentIntentId =
                 (if ipay_stripePaymentIntentId ip = Some [] then None
                  else ipay_stripePaymentIntentId ip),
               pay_createdAt = now\<rparr>
      in (p, s\<lparr>paymentIdCounter := i + 1, payments := AList.update i p (payments s)\<rparr>))"

text \<open>
  The optional third argument is \<open>None\<close> when the caller leaves it out;
  \<open>stripePaymentIntentId || payment.stripePaymentIntentId\<close> keeps the stored reference
  when the argument is absent or the empty string.
\<close>

definition updatePaymentStatus ::
  "storage \<Rightarrow> nat \<Rightarrow> paymentStatus \<Rightarrow> string option \<Rightarrow> payment option \<times> storage" where
  "updatePaymentStatus s i st sid =
     (case map_of (payments s) i of
        None \<Rightarrow> (None, s)
      | Some p \<Rightarrow>
          (let p' = p\<lparr>pay_status := st,
                      pay_stripePaymentIntentId :=
                        (case sid of
                           None \<Rightarrow> pay_stripePaymentIntentId p
                         | Some x \<Rightarrow> if x = [] then pay_stripePaymentIntentId p else Some x)\<rparr>
           in (Some p', s\<lparr>payments := AList.update i p' (payments s)\<rparr>)))"

section \<open>Sessions and middleware (server/auth.ts)\<close>

record session =
  userId :: "nat option"
  userRole :: "role option"

datatype error =
    Unauthorized string   \<comment> \<open>401\<close>
  | Forbidden string      \<comment> \<open>403\<close>
  | BadRequest string     \<comment> \<open>400 with a message of the handler\<close>
  | ZodError              \<comment> \<open>400 with the first message of the validation error\<close>
  | NotFound string       \<comment> \<open>404\<close>
  | InternalError string  \<comment> \<open>500\<close>

fun httpStatus :: "error \<Rightarrow> nat" where
  "httpStatus (Unauthorized _) = 401"
| "httpStatus (Forbidden _) = 403"
| "httpStatus (BadRequest _) = 400"
| "httpStatus ZodError = 400"
| "httpStatus (NotFound _) = 404"
| "httpStatus (InternalError _) = 500"

text \<open>\<open>req.session && req.session.userId\<close>: the id 0 is falsy.\<close>

definition isAuthenticated :: "session \<Rightarrow> bool" where
  "isAuthenticated sess = (case userId sess of None \<Rightarrow> False | Some u \<Rightarrow> u \<noteq> 0)"

definition checkRole :: "role \<Rightarrow> session \<Rightarrow> bool" where
  "checkRole r sess = (userRole sess = Some r)"

text \<open>
  The user of the session, or \<open>None\<close>. (The source also destroys a session whose user
  is gone; the session belongs to the request and is not part of the store.)
\<close>

definition getCurrentUser :: "storage \<Rightarrow> session \<Rightarrow> user option" where
  "getCurrentUser s sess =
     (case userId sess of
        None \<Rightarrow> None
      | Some u \<Rightarrow> if u = 0 then None else getUser s u)"

section \<open>PATCH /api/proposals/:id/status\<close>

text \<open>One turn of the loop over the other proposals of the project.\<close>

definition rejectOther :: "nat \<Rightarrow> proposal \<Rightarrow> storage \<Rightarrow> storage" where
  "rejectOther proposalId otherProposal s =
     (if pp_id otherProposal \<noteq> proposalId \<and> pp_status otherProposal = pending
      then snd (updateProposalStatus s (pp_id otherProposal) rejected)
      else s)"

text \<open>
  The status of the body is \<open>None\<close> when it is not one of the five values of the enum
  (the schema's \<open>parse\<close> throws). The handler answers with the updated proposal.
\<close>

definition patchProposalStatus ::
  "storage \<Rightarrow> session \<Rightarrow> nat \<Rightarrow> proposalStatus option \<Rightarrow> (error + proposal option) \<times> storage" where
  "patchProposalStatus s sess proposalId status =
     (if \<not> isAuthenticated sess then (Inl (Unauthorized ''Unauthorized - Please log in''), s)
      else if \<not> checkRole role_buyer sess
        then (Inl (Forbidden ''Access denied - buyer role required''), s)
      else case status of
        None \<Rightarrow> (Inl ZodError, s)
      | Some validatedStatus \<Rightarrow>
         (case getProposal s proposalId of
            None \<Rightarrow> (Inl (NotFound ''Proposal not found''), s)
          | Some proposal \<Rightarrow>
             (case getProject s (pp_projectId proposal) of
                None \<Rightarrow> (Inl (NotFound ''Project not found''), s)
              | Some project \<Rightarrow>
                 (case getCurrentUser s sess of
                    None \<Rightarrow>
                      (Inl (Forbidden ''You don't have permission to update this proposal''), s)
                  | Some user \<Rightarrow>
                     if u_id user \<noteq> pj_buyerId project
                     then (Inl (Forbidden ''You don't have permission to update this proposal''), s)
                     else
                       (let (updatedProposal, s1) =
                              updateProposalStatus s proposalId validatedStatus
                        in if validatedStatus = accepted
                           then
                             (let s2 = snd (updateProjectStatus s1 (pj_id project) pj_in_progress);
                                  otherProposals = getProposalsByProject s2 (pj_id project)
                              in (Inr updatedProposal, fold (rejectOther proposalId) otherProposals s2))
                           else (Inr updatedProposal, s1))))))"

section \<open>The collaborators of the handlers\<close>

text \<open>
  The handlers read the clock (\<open>new Date()\<close> in the store), hand mails to the mail
  transport, ask the payment gateway for an intent and compute with JavaScript numbers.
  These are parameters of the model: \<open>sendMail\<close> tells whether the transport accepts a
  mail (it rejects by throwing), \<open>paymentIntents_create\<close> answers with the intent or with
  \<open>None\<close> when the gateway call throws, and the \<open>js_\<close> fields are the number built-ins
  (\<open>parseFloat\<close>, \<open>*\<close>, \<open>-\<close>, the literals \<open>0.15\<close> and \<open>100\<close>, \<open>Math.round\<close>,
  \<open>toString\<close>, \<open>toFixed(2)\<close>) over a type \<open>'n\<close> of numbers. IEEE-754 arithmetic is not
  fixed here, so what is proved holds for every behaviour of these built-ins.
\<close>

datatype email =
    ProposalReceived string string string   \<comment> \<open>to, project title, seller name\<close>
  | PaymentProcessed string string string   \<comment> \<open>to, project title, \<open>amount.toFixed(2)\<close>\<close>

record paymentIntent =
  pi_id :: string
  pi_client_secret :: string

record 'n env =
  now :: nat
  sendMail :: "email \<Rightarrow> bool"
  paymentIntents_create :: "'n \<Rightarrow> nat \<Rightarrow> nat \<Rightarrow> nat \<Rightarrow> nat \<Rightarrow> paymentIntent option"
  js_parseFloat :: "string \<Rightarrow> 'n"
  js_mul :: "'n \<Rightarrow> 'n \<Rightarrow> 'n"
  js_sub :: "'n \<Rightarrow> 'n \<Rightarrow> 'n"
  js_0_15 :: 'n
  js_100 :: 'n
  js_round :: "'n \<Rightarrow> 'n"
  js_toString :: "'n \<Rightarrow> string"
  js_toFixed2 :: "'n \<Rightarrow> string"

text \<open>The store together with the mails the transport has accepted so far.\<close>

record world =
  store :: storage
  outbox :: "email list"

definition emptyWorld :: world where
  "emptyWorld = \<lparr>store = MemStorage, outbox = []\<rparr>"

section \<open>Notifications (server/email.ts)\<close>

text \<open>
  Each \<open>send...Email\<close> wraps \<open>transporter.sendMail\<close> in \<open>try\<close>/\<open>catch\<close> and answers
  \<open>{success: true}\<close> or \<open>{success: false, error}\<close>; it never throws.
\<close>

definition sendProposalReceivedEmail ::
  "'n env \<Rightarrow> email list \<Rightarrow> string \<Rightarrow> string \<Rightarrow> string \<Rightarrow> bool \<times> email list" where
  "sendProposalReceivedEmail e out to projectTitle sellerName =
     (let m = ProposalReceived to projectTitle sellerName
      in if sendMail e m then (True, out @ [m]) else (False, out))"

definition sendPaymentProcessedEmail ::
  "'n env \<Rightarrow> email list \<Rightarrow> string \<Rightarrow> string \<Rightarrow> 'n \<Rightarrow> bool \<times> email list" where
  "sendPaymentProcessedEmail e out to projectTitle amount =
     (let m = PaymentProcessed to projectTitle (js_toFixed2 e amount)
      in if sendMail e m then (True, out @ [m]) else (False, out))"

section \<open>POST /api/projects/:id/proposals\<close>

text \<open>
  The body of the request: a field is \<open>None\<close> when it is missing or of the wrong type.
  \<open>insertProposalSchema.parse\<close> requires the three fields (the id, the status and the
  creation time are omitted from the schema) and takes \<open>projectId\<close> and \<open>sellerId\<close> from
  the handler; it answers \<open>None\<close> where the source throws a \<open>ZodError\<close>.
\<close>

record proposalBody =
  b_serviceDetails :: "string option"
  b_price :: "string option"
  b_deliveryTime :: "int option"

definition insertProposalSchema_parse :: "proposalBody \<Rightarrow> nat \<Rightarrow> nat \<Rightarrow> insertProposal option" where
  "insertProposalSchema_parse b projectId sellerId =
     (case (b_serviceDetails b, b_price b, b_deliveryTime b) of
        (Some d, Some p, Some t) \<Rightarrow>
          Some \<lparr>ipp_serviceDetails = d, ipp_price = p, ipp_deliveryTime = t,
                ipp_projectId = projectId, ipp_sellerId = sellerId\<rparr>
      | _ \<Rightarrow> None)"

definition postProposal ::
  "'n env \<Rightarrow> world \<Rightarrow> session \<Rightarrow> nat \<Rightarrow> proposalBody \<Rightarrow> (error + proposal) \<times> world" where
  "postProposal e w sess projectId body =
     (if \<not> isAuthenticated sess then (Inl (Unauthorized ''Unauthorized - Please log in''), w)
      else if \<not> checkRole role_seller sess
        then (Inl (Forbidden ''Access denied - seller role required''), w)
      else case getProject (store w) projectId of
        None \<Rightarrow> (Inl (NotFound ''Project not found''), w)
      | Some project \<Rightarrow>
         if pj_status project \<noteq> pj_open
         then (Inl (BadRequest ''This project is not accepting proposals''), w)
         else
          (case getCurrentUser (store w) sess of
             None \<Rightarrow> (Inl (Unauthorized ''Not authenticated''), w)
           | Some user \<Rightarrow>
              (case insertProposalSchema_parse body projectId (u_id user) of
                 None \<Rightarrow> (Inl ZodError, w)
               | Some validatedData \<Rightarrow>
                  (let existingProposals = getProposalsByProject (store w) projectId;
                       alreadySubmitted = list_ex (\<lambda>p. pp_sellerId p = u_id user) existingProposals
                   in if alreadySubmitted
                      then (Inl (BadRequest ''You already submitted a proposal for this project''), w)
                      else
                        (let (proposal, s1) = createProposal (now e) (store w) validatedData;
                             out = (case getUser s1 (pj_buyerId project) of
                                      None \<Rightarrow> outbox w
                                    | Some buyer \<Rightarrow>
                                        snd (sendProposalReceivedEmail e (outbox w)
                                               (u_email buyer) (pj_title project) (u_name user)))
                         in (Inr proposal, \<lparr>store = s1, outbox = out\<rparr>))))))"

section \<open>POST /api/create-payment-intent\<close>

text \<open>
  \<open>proposalId\<close> is the field of the body after \<open>parseInt\<close>; it is \<open>None\<close> when the field
  is missing, and the number 0 is falsy as well.
\<close>

definition postCreatePaymentIntent ::
  "'n env \<Rightarrow> storage \<Rightarrow> session \<Rightarrow> nat option \<Rightarrow> (error + string) \<times> storage" where
  "postCreatePaymentIntent e s sess proposalId =
     (if \<not> isAuthenticated sess then (Inl (Unauthorized ''Unauthorized - Please log in''), s)
      else if \<not> checkRole role_buyer sess
        then (Inl (Forbidden ''Access denied - buyer role required''), s)
      else case proposalId of
        None \<Rightarrow> (Inl (BadRequest ''Proposal ID is required''), s)
      | Some pid \<Rightarrow>
         if pid = 0 then (Inl (BadRequest ''Proposal ID is required''), s)
         else
          (case getProposal s pid of
             None \<Rightarrow> (Inl (NotFound ''Proposal not found''), s)
           | Some proposal \<Rightarrow>
              (case getProject s (pp_projectId proposal) of
                 None \<Rightarrow> (Inl (NotFound ''Project not found''), s)
               | Some project \<Rightarrow>
                  (case getCurrentUser s sess of
                     None \<Rightarrow>
                       (Inl (Forbidden ''You don't have permission to make this payment''), s)
                   | Some user \<Rightarrow>
                      if u_id user \<noteq> pj_buyerId project
                      then (Inl (Forbidden ''You don't have permission to make this payment''), s)
                      else
                        (let amount = js_parseFloat e (pp_price proposal);
                             commission = js_mul e amount (js_0_15 e);
                             amountInCents = js_round e (js_mul e amount (js_100 e))
                         in case paymentIntents_create e amountInCents (pp_id proposal)
                                   (pj_id project) (u_id user) (pp_sellerId proposal) of
                              None \<Rightarrow> (Inl (InternalError ''Error creating payment intent''), s)
                            | Some paymentIntent \<Rightarrow>
                               (let s1 = snd (createPayment (now e) s
                                          \<lparr>ipay_amount = js_toString e amount,
                                           ipay_commission = js_toString e commission,
                                           ipay_projectId = pj_id project,
                                           ipay_buyerId = u_id user,
                                           ipay_sellerId = pp_sellerId proposal,
                                           ipay_stripePaymentIntentId = Some (pi_id paymentIntent)\<rparr>)
                                in (Inr (pi_client_secret paymentIntent), s1)))))))"

section \<open>POST /api/payments/confirm\<close>

text \<open>
  \<open>paymentIntentId\<close> is the field of the body; a missing field and the empty string are
  falsy. \<open>req.session.userId!\<close> is the id the authentication middleware has seen.
\<close>

definition postPaymentsConfirm ::
  "'n env \<Rightarrow> world \<Rightarrow> session \<Rightarrow> string option \<Rightarrow> (error + payment option) \<times> world" where
  "postPaymentsConfirm e w sess paymentIntentId =
     (if \<not> isAuthenticated sess then (Inl (Unauthorized ''Unauthorized - Please log in''), w)
      else if \<not> checkRole role_buyer sess
        then (Inl (Forbidden ''Access denied - buyer role required''), w)
      else case paymentIntentId of
        None \<Rightarrow> (Inl (BadRequest ''Payment intent ID is required''), w)
      | Some ref \<Rightarrow>
         if ref = [] then (Inl (BadRequest ''Payment intent ID is required''), w)
         else
          (case userId sess of
             None \<Rightarrow> (Inl (Unauthorized ''Unauthorized - Please log in''), w)
           | Some uid \<Rightarrow>
              (case find (\<lambda>p. pay_stripePaymentIntentId p = Some ref)
                      (getPaymentsByBuyer (store w) uid) of
                 None \<Rightarrow> (Inl (NotFound ''Payment not found''), w)
               | Some payment \<Rightarrow>
                  (let (updatedPayment, s1) =
                         updatePaymentStatus (store w) (pay_id payment) pay_completed None;
                       buyer = getUser s1 (pay_buyerId payment);
                       seller = getUser s1 (pay_sellerId payment);
                       project = getProject s1 (pay_projectId payment);
                       out =
                         (case (buyer, seller, project) of
                            (Some b, Some sl, Some pj) \<Rightarrow>
                              (let out1 = snd (sendPaymentProcessedEmail e (outbox w) (u_email b)
                                           (pj_title pj) (js_parseFloat e (pay_amount payment)))
                               in snd (sendPaymentProcessedEmail e out1 (u_email sl) (pj_title pj)
                                         (js_sub e (js_parseFloat e (pay_amount payment))
                                            (js_parseFloat e (pay_commission payment)))))
                          | _ \<Rightarrow> outbox w)
                   in (Inr updatedPayment, \<lparr>store = s1, outbox = out\<rparr>)))))"

section \<open>Sequences of requests\<close>

text \<open>
  The requests that change the store. The proposal and payment operations need users
  and projects to act on, so registration and project creation are included, at the level
  of the store (\<open>createUser\<close>, \<open>createProject\<close>), which allows more than the routes do.
  The route that sets a project's status directly is not part of the sequences.
\<close>

datatype 'n request =
    Register nat insertUser
  | NewProject nat insertProject
  | SubmitProposal "'n env" session nat proposalBody
  | ProposalStatus session nat "proposalStatus option"
  | InitiatePayment "'n env" session "nat option"
  | ConfirmPayment "'n env" session "string option"

fun step :: "'n request \<Rightarrow> world \<Rightarrow> world" where
  "step (Register t iu) w = w\<lparr>store := snd (createUser t (store w) iu)\<rparr>"
| "step (NewProject t ip) w = w\<lparr>store := snd (createProject t (store w) ip)\<rparr>"
| "step (SubmitProposal e sess projectId body) w = snd (postProposal e w sess projectId body)"
| "step (ProposalStatus sess proposalId st) w =
     w\<lparr>store := snd (patchProposalStatus (store w) sess proposalId st)\<rparr>"
| "step (InitiatePayment e sess proposalId) w =
     w\<lparr>store := snd (postCreatePaymentIntent e (store w) sess proposalId)\<rparr>"
| "step (ConfirmPayment e sess ref) w = snd (postPaymentsConfirm e w sess ref)"

definition run :: "'n request list \<Rightarrow> world \<Rightarrow> world" where
  "run rs w = fold step rs w"

text \<open>
  A sequence in which the status route is only used on proposals that are pending when
  the request arrives (a request for an absent proposal is answered 404 and is harmless).
\<close>

fun onPending :: "'n request \<Rightarrow> world \<Rightarrow> bool" where
  "onPending (ProposalStatus sess proposalId st) w =
     (case getProposal (store w) proposalId of
        None \<Rightarrow> True
      | Some p \<Rightarrow> pp_status p = pending)"
| "onPending _ w = True"

fun onlyOnPending :: "'n request list \<Rightarrow> world \<Rightarrow> bool" where
  "onlyOnPending [] w = True"
| "onlyOnPending (r # rs) w = (onPending r w \<and> onlyOnPending rs (step r w))"

section \<open>Properties of a store\<close>

text \<open>Every entry of a table sits under its own id, and no key occurs twice.\<close>

definition keyed :: "('v \<Rightarrow> nat) \<Rightarrow> (nat \<times> 'v) list \<Rightarrow> bool" where
  "keyed idf al \<longleftrightarrow> distinct (map fst al) \<and> list_all (\<lambda>(k, v). idf v = k) al"

definition below :: "nat \<Rightarrow> (nat \<times> 'v) list \<Rightarrow> bool" where
  "below c al \<longleftrightarrow> list_all (\<lambda>(k, v). k < c) al"

definition wf_storage :: "storage \<Rightarrow> bool" where
  "wf_storage s \<longleftrightarrow>
     keyed u_id (users s) \<and> keyed pj_id (projects s) \<and>
     keyed pp_id (proposals s) \<and> keyed pay_id (payments s) \<and>
     below (userIdCounter s) (users s) \<and> below (projectIdCounter s) (projects s) \<and>
     below (proposalIdCounter s) (proposals s) \<and> below (paymentIdCounter s) (payments s) \<and>
     list_all (\<lambda>(k, p). pp_projectId p \<in> fst ` set (projects s)) (proposals s)"

text \<open>The accepted proposals of a project.\<close>

definition acceptedOn :: "storage \<Rightarrow> nat \<Rightarrow> proposal list" where
  "acceptedOn s projectId =
     filter (\<lambda>p. pp_projectId p = projectId \<and> pp_status p = accepted) (map snd (proposals s))"

definition atMostOneAccepted :: "storage \<Rightarrow> bool" where
  "atMostOneAccepted s \<longleftrightarrow>
     list_all (\<lambda>pj. length (acceptedOn s (pj_id pj)) \<le> 1) (map snd (projects s))"

definition noOpenAccepted :: "storage \<Rightarrow> bool" where
  "noOpenAccepted s \<longleftrightarrow>
     list_all (\<lambda>pj. \<not> (pj_status pj = pj_open \<and> acceptedOn s (pj_id pj) \<noteq> []))
       (map snd (projects s))"

section \<open>A sample run\<close>

text \<open>
  A buyer (user 1), two sellers (users 2 and 3), a second buyer (user 4), one project of
  the first buyer and one proposal of each seller on it. The numbers are not computed in
  the sample: the number built-ins of \<open>envAt\<close> are over the unit type. Its transport
  accepts every mail and its gateway answers every request with the same intent.
\<close>

definition envAt :: "nat \<Rightarrow> unit env" where
  "envAt t = \<lparr>now = t, sendMail = (\<lambda>m. True),
     paymentIntents_create =
       (\<lambda>c a b d f. Some \<lparr>pi_id = ''pi_1'', pi_client_secret = ''pi_1_secret''\<rparr>),
     js_parseFloat = (\<lambda>x. ()), js_mul = (\<lambda>a b. ()), js_sub = (\<lambda>a b. ()), js_0_15 = (),
     js_100 = (), js_round = (\<lambda>a. ()), js_toString = (\<lambda>a. ''n''),
     js_toFixed2 = (\<lambda>a. ''n.nn'')\<rparr>"

text \<open>The same, with a transport that rejects every mail.\<close>

definition envNoMail :: "nat \<Rightarrow> unit env" where
  "envNoMail t = (envAt t)\<lparr>sendMail := (\<lambda>m. False)\<rparr>"

text \<open>The same as \<open>envAt\<close>, with a gateway whose call throws.\<close>

definition envGatewayDown :: "nat \<Rightarrow> unit env" where
  "envGatewayDown t = (envAt t)\<lparr>paymentIntents_create := (\<lambda>c a b d f. None)\<rparr>"

definition sessionOf :: "nat \<Rightarrow> role \<Rightarrow> session" where
  "sessionOf u r = \<lparr>userId = Some u, userRole = Some r\<rparr>"

definition bodyA :: proposalBody where
  "bodyA = \<lparr>b_serviceDetails = Some ''A'', b_price = Some ''800'', b_deliveryTime = Some 10\<rparr>"

definition bodyB :: proposalBody where
  "bodyB = \<lparr>b_serviceDetails = Some ''B'', b_price = Some ''900'', b_deliveryTime = Some 5\<rparr>"

definition scenario :: "unit request list" where
  "scenario =
    [Register 1 \<lparr>iu_name = ''Buyer'', iu_email = ''buyer@example.com'',
        iu_password = ''x'', iu_role = role_buyer\<rparr>,
     Register 2 \<lparr>iu_name = ''Seller A'', iu_email = ''a@example.com'',
        iu_password = ''x'', iu_role = role_seller\<rparr>,
     Register 3 \<lparr>iu_name = ''Seller B'', iu_email = ''b@example.com'',
        iu_password = ''x'', iu_role = role_seller\<rparr>,
     Register 4 \<lparr>iu_name = ''Other'', iu_email = ''other@example.com'',
        iu_password = ''x'', iu_role = role_buyer\<rparr>,
     NewProject 5 \<lparr>ipj_title = ''P'', ipj_description = ''d'', ipj_budget = ''1000'',
        ipj_deadline = 100, ipj_buyerId = 1\<rparr>,
     SubmitProposal (envAt 6) (sessionOf 2 role_seller) 1 bodyA,
     SubmitProposal (envAt 7) (sessionOf 3 role_seller) 1 bodyB]"

definition buyerUser :: user where
  "buyerUser = \<lparr>u_id = 1, u_name = ''Buyer'', u_email = ''buyer@example.com'',
     u_password = ''x'', u_role = role_buyer, u_createdAt = 1\<rparr>"

definition sellerA :: user where
  "sellerA = \<lparr>u_id = 2, u_name = ''Seller A'', u_email = ''a@example.com'',
     u_password = ''x'', u_role = role_seller, u_createdAt = 2\<rparr>"

definition sellerB :: user where
  "sellerB = \<lparr>u_id = 3, u_name = ''Seller B'', u_email = ''b@example.com'',
     u_password = ''x'', u_role = role_seller, u_createdAt = 3\<rparr>"

definition otherBuyer :: user where
  "otherBuyer = \<lparr>u_id = 4, u_name = ''Other'', u_email = ''other@example.com'',
     u_password = ''x'', u_role = role_buyer, u_createdAt = 4\<rparr>"

definition projectP :: project where
  "projectP = \<lparr>pj_id = 1, pj_title = ''P'', pj_description = ''d'', pj_budget = ''1000'',
     pj_deadline = 100, pj_status = pj_open, pj_buyerId = 1, pj_createdAt = 5\<rparr>"

definition proposalA :: proposal where
  "proposalA = \<lparr>pp_id = 1, pp_serviceDetails = ''A'', pp_price = ''800'', pp_deliveryTime = 10,
     pp_status = pending, pp_projectId = 1, pp_sellerId = 2, pp_createdAt = 6\<rparr>"

definition proposalB :: proposal where
  "proposalB = \<lparr>pp_id = 2, pp_serviceDetails = ''B'', pp_price = ''900'', pp_deliveryTime = 5,
     pp_status = pending, pp_projectId = 1, pp_sellerId = 3, pp_createdAt = 7\<rparr>"

text \<open>
  The worlds of the run: nothing submitted yet; the first proposal submitted; both
  submitted and pending.
\<close>

definition noProposal :: world where
  "noProposal = run (take 5 scenario) emptyWorld"

definition onePendingW :: world where
  "onePendingW = run (take 6 scenario) emptyWorld"

definition twoPendingW :: world where
  "twoPendingW = run scenario emptyWorld"

definition onePending :: storage where
  "onePending = store onePendingW"

definition twoPending :: storage where
  "twoPending = store twoPendingW"

text \<open>The buyer accepts the first proposal (the second is rejected by the cascade).\<close>

definition acceptFirst :: "unit request" where
  "acceptFirst = ProposalStatus (sessionOf 1 role_buyer) 1 (Some accepted)"

definition firstAccepted :: storage where
  "firstAccepted = store (run (scenario @ [acceptFirst]) emptyWorld)"

text \<open>After that the buyer sets the second proposal back to pending.\<close>

definition secondReopened :: storage where
  "secondReopened =
     store (run (scenario @ [acceptFirst, ProposalStatus (sessionOf 1 role_buyer) 2 (Some pending)])
              emptyWorld)"

text \<open>The buyer rejects the first proposal while the project stays open.\<close>

definition firstRejectedW :: world where
  "firstRejectedW =
     run (scenario @ [ProposalStatus (sessionOf 1 role_buyer) 1 (Some rejected)]) emptyWorld"

text \<open>The buyer accepts the first proposal and initiates the payment for it.\<close>

definition paymentPendingW :: world where
  "paymentPendingW =
     run (scenario @ [acceptFirst, InitiatePayment (envAt 9) (sessionOf 1 role_buyer) (Some 1)])
       emptyWorld"

definition paymentOne :: payment where
  "paymentOne = \<lparr>pay_id = 1, pay_amount = ''n'', pay_commission = ''n'',
     pay_status = pay_pending, pay_projectId = 1, pay_buyerId = 1, pay_sellerId = 2,
     pay_stripePaymentIntentId = Some ''pi_1'', pay_createdAt = 9\<rparr>"

text \<open>The same confirmation request sent \<open>n\<close> times in a row.\<close>

fun confirmTimes :: "nat \<Rightarrow> 'n env \<Rightarrow> session \<Rightarrow> string option \<Rightarrow> world \<Rightarrow> world" where
  "confirmTimes 0 e sess ref w = w"
| "confirmTimes (Suc n) e sess ref w =
     confirmTimes n e sess ref (snd (postPaymentsConfirm e w sess ref))"

section \<open>Vocabulary of the statements\<close>

text \<open>
  The mails a confirmation of the payment hands to the transport: one to the buyer with
  the amount and one to the seller with the amount less the commission, when buyer,
  seller and project are all present, and none otherwise.
\<close>

definition confirmationMails :: "'n env \<Rightarrow> storage \<Rightarrow> payment \<Rightarrow> email list" where
  "confirmationMails e s pay =
     (case (getUser s (pay_buyerId pay), getUser s (pay_sellerId pay),
            getProject s (pay_projectId pay)) of
        (Some b, Some sl, Some pj) \<Rightarrow>
          [PaymentProcessed (u_email b) (pj_title pj)
             (js_toFixed2 e (js_parseFloat e (pay_amount pay))),
           PaymentProcessed (u_email sl) (pj_title pj)
             (js_toFixed2 e (js_sub e (js_parseFloat e (pay_amount pay))
                                      (js_parseFloat e (pay_commission pay))))]
      | _ \<Rightarrow> [])"

text \<open>
  Two properties of the proposal table, read through \<open>getProposal\<close>: the project of an
  accepted proposal exists and is not open; and beside an accepted proposal no other
  proposal of the same project is accepted or pending.
\<close>

definition acceptedClosed :: "storage \<Rightarrow> bool" where
  "acceptedClosed s \<longleftrightarrow>
     (\<forall>q p. getProposal s q = Some p \<and> pp_status p = accepted \<longrightarrow>
        (\<exists>pj. getProject s (pp_projectId p) = Some pj \<and> pj_status pj \<noteq> pj_open))"

definition acceptedAlone :: "storage \<Rightarrow> bool" where
  "acceptedAlone s \<longleftrightarrow>
     (\<forall>q p q' p'. getProposal s q = Some p \<and> getProposal s q' = Some p'
        \<and> pp_status p = accepted \<and> pp_projectId p' = pp_projectId p \<and> q' \<noteq> q \<longrightarrow>
        pp_status p' \<noteq> accepted \<and> pp_status p' \<noteq> pending)"

section \<open>JavaScript numbers\<close>

text \<open>
  An instance of the number built-ins, for finite doubles: \<open>Fin m e\<close> is \<open>m * 2^e\<close>,
  and every operation rounds its exact result to 53 significant bits, ties to even.
  This is binary64 arithmetic as long as no result overflows or is subnormal; the
  exponent is not bounded here, infinities and the sign of zero are not modelled, and of
  the strings \<open>parseFloat\<close> understands, \<open>Infinity\<close> and white space outside ASCII are left
  out. \<open>jsToString\<close> prints the shortest decimal that reads back as the same number,
  in the notation of \<open>Number.prototype.toString\<close>.
\<close>

datatype number = NaN | Fin int int

text \<open>The number of binary digits of a positive integer.\<close>

function bits :: "int \<Rightarrow> int" where
  "bits n = (if n \<le> 0 then 0 else 1 + bits (n div 2))"
  by pat_completeness auto
termination
  by (relation "measure nat") auto

declare bits.simps [simp del]

text \<open>\<open>a / d\<close> rounded to the nearest integer, ties to even.\<close>

definition nearestEven :: "int \<Rightarrow> int \<Rightarrow> int" where
  "nearestEven a d =
     (let q = a div d; r = a mod d
      in if 2 * r < d then q else if d < 2 * r then q + 1 else if even q then q else q + 1)"

text \<open>\<open>m * 2^e\<close> rounded to 53 significant bits.\<close>

definition round53 :: "int \<Rightarrow> int \<Rightarrow> number" where
  "round53 m e =
     (let b = bits \<bar>m\<bar>
      in if b \<le> 53 then Fin m e
         else Fin (sgn m * nearestEven \<bar>m\<bar> (2 ^ nat (b - 53))) (e + (b - 53)))"

text \<open>The double nearest to the decimal \<open>s * 10^j\<close>.\<close>

definition ofDecimal :: "int \<Rightarrow> int \<Rightarrow> number" where
  "ofDecimal s j =
     (if 0 \<le> j then round53 (s * 10 ^ nat j) 0
      else (let d = 10 ^ nat (- j);
                sh = max 0 (bits d - bits \<bar>s\<bar> + 55);
                a = \<bar>s\<bar> * 2 ^ nat sh;
                q = a div d;
                sticky = (if a mod d = 0 then 0 else 1)
            in round53 (sgn s * (2 * q + sticky)) (- sh - 1)))"

definition jsMul :: "number \<Rightarrow> number \<Rightarrow> number" where
  "jsMul x y =
     (case (x, y) of
        (Fin m1 e1, Fin m2 e2) \<Rightarrow> round53 (m1 * m2) (e1 + e2)
      | _ \<Rightarrow> NaN)"

definition jsSub :: "number \<Rightarrow> number \<Rightarrow> number" where
  "jsSub x y =
     (case (x, y) of
        (Fin m1 e1, Fin m2 e2) \<Rightarrow>
          (let e = min e1 e2
           in round53 (m1 * 2 ^ nat (e1 - e) - m2 * 2 ^ nat (e2 - e)) e)
      | _ \<Rightarrow> NaN)"

text \<open>\<open>floorScaled m e j\<close> is the floor of \<open>m * 2^e / 10^j\<close>.\<close>

definition floorScaled :: "int \<Rightarrow> int \<Rightarrow> int \<Rightarrow> int" where
  "floorScaled m e j =
     (m * 2 ^ nat e * 10 ^ nat (- j)) div (2 ^ nat (- e) * 10 ^ nat j)"

definition sameNumber :: "number \<Rightarrow> number \<Rightarrow> bool" where
  "sameNumber x y =
     (case (x, y) of
        (Fin m1 e1, Fin m2 e2) \<Rightarrow> m1 * 2 ^ nat (e1 - min e1 e2) = m2 * 2 ^ nat (e2 - min e1 e2)
      | _ \<Rightarrow> False)"

text \<open>\<open>m * 2^e < s * 10^j\<close>, by cross multiplication.\<close>

definition belowDecimal :: "int \<Rightarrow> int \<Rightarrow> int \<Rightarrow> int \<Rightarrow> bool" where
  "belowDecimal m e s j \<longleftrightarrow>
     m * 2 ^ nat e * 10 ^ nat (- j) < s * 10 ^ nat j * 2 ^ nat (- e)"

text \<open>The decimal exponent of \<open>m * 2^e\<close>, from its binary exponent and one correction.\<close>

definition ilog10 :: "int \<Rightarrow> int \<Rightarrow> int" where
  "ilog10 m e =
     (let g = ((bits m + e - 1) * 30103) div 100000
      in if belowDecimal m e 1 g then g - 1
         else if belowDecimal m e 1 (g + 1) then g else g + 1)"

text \<open>\<open>s * 10^j < m * 2^e\<close>, by cross multiplication.\<close>

definition aboveDecimal :: "int \<Rightarrow> int \<Rightarrow> int \<Rightarrow> int \<Rightarrow> bool" where
  "aboveDecimal m e s j \<longleftrightarrow>
     s * 10 ^ nat j * 2 ^ nat (- e) < m * 2 ^ nat e * 10 ^ nat (- j)"

text \<open>
  The decimal with k digits for \<open>m * 2^e\<close>, if one reads back as the same number: of
  the two neighbours \<open>lo * 10^j\<close> and \<open>hi * 10^j\<close> the one closer to the number when both
  read back, and the even one when they are equally close.
\<close>

definition candidate :: "int \<Rightarrow> int \<Rightarrow> int \<Rightarrow> int \<Rightarrow> (int \<times> int) option" where
  "candidate m e n k =
     (let j = n - k;
          lo = floorScaled m e j;
          hi = lo + 1;
          vlo = sameNumber (ofDecimal lo j) (Fin m e);
          vhi = sameNumber (ofDecimal hi j) (Fin m e)
      in if vlo \<and> vhi
         then (if belowDecimal (2 * m) e (lo + hi) j then Some (lo, j)
               else if aboveDecimal (2 * m) e (lo + hi) j then Some (hi, j)
               else if even lo then Some (lo, j)
               else Some (hi, j))
         else if vlo then Some (lo, j)
         else if vhi then Some (hi, j)
         else None)"

fun shortest :: "int \<Rightarrow> int \<Rightarrow> int \<Rightarrow> int list \<Rightarrow> (int \<times> int) option" where
  "shortest m e n [] = None"
| "shortest m e n (k # ks) =
     (case candidate m e n k of Some c \<Rightarrow> Some c | None \<Rightarrow> shortest m e n ks)"

function stripZeros :: "int \<Rightarrow> int \<Rightarrow> int \<times> int" where
  "stripZeros s j = (if 0 < s \<and> s mod 10 = 0 then stripZeros (s div 10) (j + 1) else (s, j))"
  by pat_completeness auto
termination
  by (relation "measure (\<lambda>(s, j). nat s)") auto

declare stripZeros.simps [simp del]

definition digit :: "int \<Rightarrow> char" where
  "digit d = ''0123456789'' ! nat d"

function digitsOf :: "int \<Rightarrow> string" where
  "digitsOf n = (if n < 10 then [digit n] else digitsOf (n div 10) @ [digit (n mod 10)])"
  by pat_completeness auto
termination
  by (relation "measure nat") auto

declare digitsOf.simps [simp del]

definition formatDecimal :: "int \<Rightarrow> int \<Rightarrow> string" where
  "formatDecimal s j =
     (let ds = digitsOf s; k = int (length ds); n = k + j
      in if k \<le> n \<and> n \<le> 21 then ds @ replicate (nat (n - k)) (CHR ''0'')
         else if 0 < n \<and> n \<le> 21 then take (nat n) ds @ ''.'' @ drop (nat n) ds
         else if - 6 < n \<and> n \<le> 0 then ''0.'' @ replicate (nat (- n)) (CHR ''0'') @ ds
         else (let x = n - 1;
                   ex = (if x < 0 then ''e-'' else ''e+'') @ digitsOf \<bar>x\<bar>
               in if k = 1 then ds @ ex else take 1 ds @ ''.'' @ drop 1 ds @ ex))"

definition jsToString :: "number \<Rightarrow> string" where
  "jsToString x =
     (case x of
        NaN \<Rightarrow> ''NaN''
      | Fin m e \<Rightarrow>
          if m = 0 then ''0''
          else (case shortest \<bar>m\<bar> e (ilog10 \<bar>m\<bar> e + 1) [1, 2, 3, 4, 5, 6, 7, 8, 9, 10, 11, 12, 13, 14, 15, 16, 17] of
                  None \<Rightarrow> ''NaN''
                | Some (s, j) \<Rightarrow>
                    (let (s', j') = stripZeros s j
                     in (if m < 0 then ''-'' else []) @ formatDecimal s' j')))"

text \<open>
  \<open>toFixed(2)\<close>: the nearest multiple of 0.01, the larger one on a tie; from
  \<open>10^21\<close> on the number is printed as \<open>toString\<close> prints it.
\<close>

definition jsToFixed2 :: "number \<Rightarrow> string" where
  "jsToFixed2 x =
     (case x of
        NaN \<Rightarrow> ''NaN''
      | Fin m e \<Rightarrow>
          if \<not> belowDecimal \<bar>m\<bar> e 1 21 then jsToString x
          else
          (let n = (2 * \<bar>m\<bar> * 100 * 2 ^ nat e + 2 ^ nat (- e)) div (2 * 2 ^ nat (- e));
               ds = digitsOf n;
               ds' = replicate (3 - length ds) (CHR ''0'') @ ds
           in (if m < 0 then ''-'' else []) @ take (length ds' - 2) ds' @ ''.''
                @ drop (length ds' - 2) ds'))"

text \<open>\<open>Math.round\<close>: the floor of \<open>x + 1/2\<close>.\<close>

definition jsRound :: "number \<Rightarrow> number" where
  "jsRound x =
     (case x of
        NaN \<Rightarrow> NaN
      | Fin m e \<Rightarrow> if 0 \<le> e then Fin m e
                   else round53 ((2 * m + 2 ^ nat (- e)) div (2 * 2 ^ nat (- e))) 0)"

definition digitVal :: "char \<Rightarrow> int option" where
  "digitVal c = map_of (zip ''0123456789'' [0, 1, 2, 3, 4, 5, 6, 7, 8, 9]) c"

fun readDigits :: "string \<Rightarrow> int \<Rightarrow> int \<Rightarrow> int \<times> int \<times> string" where
  "readDigits [] acc cnt = (acc, cnt, [])"
| "readDigits (c # cs) acc cnt =
     (case digitVal c of
        None \<Rightarrow> (acc, cnt, c # cs)
      | Some d \<Rightarrow> readDigits cs (10 * acc + d) (cnt + 1))"

definition readExponent :: "string \<Rightarrow> int" where
  "readExponent r =
     (case r of
        [] \<Rightarrow> 0
      | c # r1 \<Rightarrow>
          if c = CHR ''e'' \<or> c = CHR ''E''
          then (let (neg, r2) = (case r1 of
                                   [] \<Rightarrow> (False, [])
                                 | d # r3 \<Rightarrow> if d = CHR ''-'' then (True, r3)
                                            else if d = CHR ''+'' then (False, r3)
                                            else (False, d # r3));
                    (x, cx, r4) = readDigits r2 0 0
                in if cx = 0 then 0 else if neg then - x else x)
          else 0)"

definition jsParseFloat :: "string \<Rightarrow> number" where
  "jsParseFloat str =
     (let s0 = dropWhile (\<lambda>c. c \<in> set [CHR '' '', CHR 0x09, CHR 0x0A, CHR 0x0B, CHR 0x0C, CHR 0x0D]) str;
          (neg, s1) = (case s0 of
                         [] \<Rightarrow> (False, [])
                       | c # r \<Rightarrow> if c = CHR ''-'' then (True, r)
                                  else if c = CHR ''+'' then (False, r) else (False, c # r));
          (i, ci, r1) = readDigits s1 0 0;
          (f, cf, r2) = (case r1 of
                           [] \<Rightarrow> (i, 0, [])
                         | c # r \<Rightarrow> if c = CHR ''.'' then readDigits r i 0 else (i, 0, c # r))
      in if ci + cf = 0 then NaN
         else ofDecimal (if neg then - f else f) (readExponent r2 - cf))"

text \<open>
  The environment with these numbers. The literal \<open>0.15\<close> of the source is the double
  nearest to 15/100. The gateway of the sample refuses an amount that is not a number.
\<close>

definition jsEnv :: "nat \<Rightarrow> number env" where
  "jsEnv t = \<lparr>now = t, sendMail = (\<lambda>m. True),
     paymentIntents_create =
       (\<lambda>c a b d f. case c of
            NaN \<Rightarrow> None
          | Fin m e \<Rightarrow> Some \<lparr>pi_id = ''pi_1'', pi_client_secret = ''pi_1_secret''\<rparr>),
     js_parseFloat = jsParseFloat, js_mul = jsMul, js_sub = jsSub,
     js_0_15 = ofDecimal 15 (- 2), js_100 = Fin 100 0, js_round = jsRound,
     js_toString = jsToString, js_toFixed2 = jsToFixed2\<rparr>"

text \<open>
  The commission in the words of the specification, for an amount in cents: 15 percent of
  the amount, rounded to the cent.
\<close>

definition spec_commission_cents :: "int \<Rightarrow> int" where
  "spec_commission_cents amount = (amount * 15 + 50) div 100"

text \<open>
  A store in which the only proposal, of the second seller on the buyer's project, has
  the given price and has been accepted by the buyer.
\<close>

definition acceptedAt :: "string \<Rightarrow> storage" where
  "acceptedAt price =
     snd (patchProposalStatus
            (store (snd (postProposal (jsEnv 8) noProposal (sessionOf 3 role_seller) 1
                           \<lparr>b_serviceDetails = Some ''C'', b_price = Some price,
                            b_deliveryTime = Some 7\<rparr>)))
            (sessionOf 1 role_buyer) 1 (Some accepted))"

text \<open>The buyer's requests to initiate the payment for that proposal and to confirm it.\<close>

definition acceptedW :: "string \<Rightarrow> world" where
  "acceptedW price = \<lparr>store = acceptedAt price, outbox = []\<rparr>"

definition initiate :: "number request" where
  "initiate = InitiatePayment (jsEnv 9) (sessionOf 1 role_buyer) (Some 1)"

definition confirm :: "number request" where
  "confirm = ConfirmPayment (jsEnv 10) (sessionOf 1 role_buyer) (Some ''pi_1'')"

definition payment800 :: payment where
  "payment800 = \<lparr>pay_id = 1, pay_amount = ''800'', pay_commission = ''120'',
     pay_status = pay_pending, pay_projectId = 1, pay_buyerId = 1, pay_sellerId = 3,
     pay_stripePaymentIntentId = Some ''pi_1'', pay_createdAt = 9\<rparr>"

section \<open>Tables\<close>

lemma keyed_map_of: "keyed idf al \<Longrightarrow> map_of al k = Some v \<Longrightarrow> idf v = k"
  by (auto simp: keyed_def list_all_iff dest: map_of_SomeD)

lemma keyed_mem: "keyed idf al \<Longrightarrow> v \<in> snd ` set al \<longleftrightarrow> map_of al (idf v) = Some v"
  by (auto simp: keyed_def list_all_iff dest: map_of_SomeD intro: rev_image_eqI)

lemma list_all_update:
  "list_all P al \<Longrightarrow> P (k, v) \<Longrightarrow> list_all P (AList.update k v al)"
  by (induction al) auto

lemma keyed_update: "keyed idf al \<Longrightarrow> idf v = k \<Longrightarrow> keyed idf (AList.update k v al)"
  by (simp add: keyed_def AList.distinct_update list_all_update)

section \<open>The cascade\<close>

lemma getProposal_rejectOther:
  "getProposal (rejectOther pid oth s) q =
     (if pp_id oth = q \<and> q \<noteq> pid \<and> pp_status oth = pending
      then map_option (\<lambda>p. p\<lparr>pp_status := rejected\<rparr>) (getProposal s q)
      else getProposal s q)"
  by (auto simp: rejectOther_def updateProposalStatus_def getProposal_def AList.update_conv'
      Let_def split: option.splits)

lemma getProposal_fold_rejectOther:
  "getProposal (fold (rejectOther pid) ops s) q =
     (if \<exists>oth\<in>set ops. pp_id oth = q \<and> q \<noteq> pid \<and> pp_status oth = pending
      then map_option (\<lambda>p. p\<lparr>pp_status := rejected\<rparr>) (getProposal s q)
      else getProposal s q)"
proof (induction ops arbitrary: s)
  case Nil
  show ?case by simp
next
  case (Cons oth ops)
  have idem: "map_option (\<lambda>p. p\<lparr>pp_status := rejected\<rparr>)
        (map_option (\<lambda>p. p\<lparr>pp_status := rejected\<rparr>) x) =
      map_option (\<lambda>p. p\<lparr>pp_status := rejected\<rparr>) x" for x :: "proposal option"
    by (cases x) simp_all
  show ?case
    by (simp add: Cons.IH getProposal_rejectOther idem) blast
qed

lemma rejectOther_frame:
  "projects (rejectOther pid oth s) = projects s"
  "users (rejectOther pid oth s) = users s"
  "payments (rejectOther pid oth s) = payments s"
  "userIdCounter (rejectOther pid oth s) = userIdCounter s"
  "projectIdCounter (rejectOther pid oth s) = projectIdCounter s"
  "proposalIdCounter (rejectOther pid oth s) = proposalIdCounter s"
  "paymentIdCounter (rejectOther pid oth s) = paymentIdCounter s"
  by (simp_all add: rejectOther_def updateProposalStatus_def Let_def split: option.splits)

lemma fold_rejectOther_frame:
  "projects (fold (rejectOther pid) ops s) = projects s"
  "users (fold (rejectOther pid) ops s) = users s"
  "payments (fold (rejectOther pid) ops s) = payments s"
  "userIdCounter (fold (rejectOther pid) ops s) = userIdCounter s"
  "projectIdCounter (fold (rejectOther pid) ops s) = projectIdCounter s"
  "proposalIdCounter (fold (rejectOther pid) ops s) = proposalIdCounter s"
  "paymentIdCounter (fold (rejectOther pid) ops s) = paymentIdCounter s"
  by (induction ops arbitrary: s) (simp_all add: rejectOther_frame)

lemma fold_rejectOther_none:
  "\<forall>oth\<in>set ops. pp_id oth = pid \<or> pp_status oth \<noteq> pending \<Longrightarrow>
     fold (rejectOther pid) ops s = s"
  by (induction ops arbitrary: s) (auto simp: rejectOther_def)

lemma set_getProposalsByProject:
  "set (getProposalsByProject s P) = {p \<in> snd ` set (proposals s). pp_projectId p = P}"
  by (auto simp: getProposalsByProject_def newestFirst_def)

section \<open>The status route when the caller owns the project\<close>

lemma patchProposalStatus_authorised:
  assumes "isAuthenticated sess" and "checkRole role_buyer sess"
    and "getProposal s pid = Some p"
    and "getProject s (pp_projectId p) = Some pj"
    and "getCurrentUser s sess = Some u" and "u_id u = pj_buyerId pj"
  shows "patchProposalStatus s sess pid (Some st) =
     (let s1 = s\<lparr>proposals := AList.update pid (p\<lparr>pp_status := st\<rparr>) (proposals s)\<rparr>
      in (Inr (Some (p\<lparr>pp_status := st\<rparr>)),
          if st = accepted
          then (let s2 = snd (updateProjectStatus s1 (pj_id pj) pj_in_progress)
                in fold (rejectOther pid) (getProposalsByProject s2 (pj_id pj)) s2)
          else s1))"
  using assms
  by (simp add: patchProposalStatus_def updateProposalStatus_def getProposal_def Let_def)

text \<open>The store between the two updates and the loop of an accept.\<close>

lemma accept_store:
  assumes kj: "keyed pj_id (projects s)"
    and auth: "isAuthenticated sess" "checkRole role_buyer sess"
    and p: "getProposal s pid = Some p"
    and pj: "getProject s (pp_projectId p) = Some pj"
    and u: "getCurrentUser s sess = Some u" "u_id u = pj_buyerId pj"
  shows "snd (patchProposalStatus s sess pid (Some accepted)) =
     fold (rejectOther pid)
       (getProposalsByProject
          (s\<lparr>proposals := AList.update pid (p\<lparr>pp_status := accepted\<rparr>) (proposals s),
             projects := AList.update (pp_projectId p) (pj\<lparr>pj_status := pj_in_progress\<rparr>) (projects s)\<rparr>)
          (pp_projectId p))
       (s\<lparr>proposals := AList.update pid (p\<lparr>pp_status := accepted\<rparr>) (proposals s),
          projects := AList.update (pp_projectId p) (pj\<lparr>pj_status := pj_in_progress\<rparr>) (projects s)\<rparr>)"
proof -
  have pjid: "pj_id pj = pp_projectId p"
    using keyed_map_of [OF kj] pj by (simp add: getProject_def)
  show ?thesis
    using patchProposalStatus_authorised [OF auth p pj u, of accepted] pj
    by (simp add: Let_def pjid updateProjectStatus_def getProject_def)
qed

lemma accept_proposals:
  assumes kp: "keyed pp_id (proposals s)" and kj: "keyed pj_id (projects s)"
    and auth: "isAuthenticated sess" "checkRole role_buyer sess"
    and p: "getProposal s pid = Some p"
    and pj: "getProject s (pp_projectId p) = Some pj"
    and u: "getCurrentUser s sess = Some u" "u_id u = pj_buyerId pj"
  shows "getProposal (snd (patchProposalStatus s sess pid (Some accepted))) q =
     (case getProposal s q of
        None \<Rightarrow> None
      | Some pq \<Rightarrow>
          Some (if q = pid then pq\<lparr>pp_status := accepted\<rparr>
                else if pp_projectId pq = pp_projectId p \<and> pp_status pq = pending
                  then pq\<lparr>pp_status := rejected\<rparr>
                else pq))"
proof -
  define s2 where "s2 = s\<lparr>proposals := AList.update pid (p\<lparr>pp_status := accepted\<rparr>) (proposals s),
             projects := AList.update (pp_projectId p) (pj\<lparr>pj_status := pj_in_progress\<rparr>) (projects s)\<rparr>"
  have res: "snd (patchProposalStatus s sess pid (Some accepted)) =
      fold (rejectOther pid) (getProposalsByProject s2 (pp_projectId p)) s2"
    unfolding s2_def by (rule accept_store [OF kj auth p pj u])
  have k2: "keyed pp_id (proposals s2)"
    unfolding s2_def using keyed_update [OF kp, of "p\<lparr>pp_status := accepted\<rparr>" pid]
      keyed_map_of [OF kp] p by (simp add: getProposal_def)
  have get2: "getProposal s2 k = (if k = pid then Some (p\<lparr>pp_status := accepted\<rparr>) else getProposal s k)" for k
    by (simp add: getProposal_def s2_def AList.update_conv')
  have mem: "(\<exists>oth\<in>set (getProposalsByProject s2 (pp_projectId p)).
        pp_id oth = q \<and> q \<noteq> pid \<and> pp_status oth = pending) \<longleftrightarrow>
      (\<exists>pq. getProposal s q = Some pq \<and> q \<noteq> pid \<and> pp_projectId pq = pp_projectId p
          \<and> pp_status pq = pending)"
  proof
    assume "\<exists>oth\<in>set (getProposalsByProject s2 (pp_projectId p)).
        pp_id oth = q \<and> q \<noteq> pid \<and> pp_status oth = pending"
    then obtain oth where o: "oth \<in> snd ` set (proposals s2)" "pp_projectId oth = pp_projectId p"
        "pp_id oth = q" "q \<noteq> pid" "pp_status oth = pending"
      by (auto simp: set_getProposalsByProject)
    from o(1) have "getProposal s2 (pp_id oth) = Some oth"
      using keyed_mem [OF k2] by (simp add: getProposal_def)
    with o have "getProposal s q = Some oth" by (simp add: get2)
    with o show "\<exists>pq. getProposal s q = Some pq \<and> q \<noteq> pid \<and> pp_projectId pq = pp_projectId p
          \<and> pp_status pq = pending" by simp
  next
    assume "\<exists>pq. getProposal s q = Some pq \<and> q \<noteq> pid \<and> pp_projectId pq = pp_projectId p
          \<and> pp_status pq = pending"
    then obtain pq where q: "getProposal s q = Some pq" "q \<noteq> pid"
        "pp_projectId pq = pp_projectId p" "pp_status pq = pending" by blast
    then have g: "getProposal s2 q = Some pq" by (simp add: get2)
    then have i: "pp_id pq = q" using keyed_map_of [OF k2] by (simp add: getProposal_def)
    with g have "pq \<in> snd ` set (proposals s2)"
      using keyed_mem [OF k2, of pq] by (simp add: getProposal_def)
    with q i show "\<exists>oth\<in>set (getProposalsByProject s2 (pp_projectId p)).
        pp_id oth = q \<and> q \<noteq> pid \<and> pp_status oth = pending"
      by (auto simp: set_getProposalsByProject)
  qed
  show ?thesis
    unfolding res getProposal_fold_rejectOther mem
    using p by (auto simp: get2 split: option.splits)
qed

lemma accept_projects:
  assumes kj: "keyed pj_id (projects s)"
    and auth: "isAuthenticated sess" "checkRole role_buyer sess"
    and p: "getProposal s pid = Some p"
    and pj: "getProject s (pp_projectId p) = Some pj"
    and u: "getCurrentUser s sess = Some u" "u_id u = pj_buyerId pj"
  shows "projects (snd (patchProposalStatus s sess pid (Some accepted))) =
     AList.update (pp_projectId p) (pj\<lparr>pj_status := pj_in_progress\<rparr>) (projects s)"
  unfolding accept_store [OF kj auth p pj u] by (simp add: fold_rejectOther_frame)

lemma accept_alone:
  assumes kp: "keyed pp_id (proposals s)" and kj: "keyed pj_id (projects s)"
    and auth: "isAuthenticated sess" "checkRole role_buyer sess"
    and p: "getProposal s pid = Some p"
    and pj: "getProject s (pp_projectId p) = Some pj"
    and u: "getCurrentUser s sess = Some u" "u_id u = pj_buyerId pj"
    and alone: "\<forall>q pq. q \<noteq> pid \<and> getProposal s q = Some pq \<longrightarrow> pp_projectId pq \<noteq> pp_projectId p"
  shows "snd (patchProposalStatus s sess pid (Some accepted)) =
     s\<lparr>proposals := AList.update pid (p\<lparr>pp_status := accepted\<rparr>) (proposals s),
       projects := AList.update (pp_projectId p) (pj\<lparr>pj_status := pj_in_progress\<rparr>) (projects s)\<rparr>"
proof -
  define s2 where "s2 = s\<lparr>proposals := AList.update pid (p\<lparr>pp_status := accepted\<rparr>) (proposals s),
             projects := AList.update (pp_projectId p) (pj\<lparr>pj_status := pj_in_progress\<rparr>) (projects s)\<rparr>"
  have k2: "keyed pp_id (proposals s2)"
    unfolding s2_def using keyed_update [OF kp, of "p\<lparr>pp_status := accepted\<rparr>" pid]
      keyed_map_of [OF kp] p by (simp add: getProposal_def)
  have get2: "getProposal s2 k = (if k = pid then Some (p\<lparr>pp_status := accepted\<rparr>) else getProposal s k)" for k
    by (simp add: getProposal_def s2_def AList.update_conv')
  have "\<forall>oth\<in>set (getProposalsByProject s2 (pp_projectId p)). pp_id oth = pid \<or> pp_status oth \<noteq> pending"
  proof
    fix oth assume "oth \<in> set (getProposalsByProject s2 (pp_projectId p))"
    then have o: "oth \<in> snd ` set (proposals s2)" "pp_projectId oth = pp_projectId p"
      by (auto simp: set_getProposalsByProject)
    from o(1) have g: "getProposal s2 (pp_id oth) = Some oth"
      using keyed_mem [OF k2] by (simp add: getProposal_def)
    show "pp_id oth = pid \<or> pp_status oth \<noteq> pending"
    proof (cases "pp_id oth = pid")
      case True
      then show ?thesis by simp
    next
      case False
      with g have "getProposal s (pp_id oth) = Some oth" by (simp add: get2)
      with alone False o(2) show ?thesis by blast
    qed
  qed
  then show ?thesis
    unfolding accept_store [OF kj auth p pj u] s2_def [symmetric]
    by (rule fold_rejectOther_none)
qed


lemma wf_storage_keyed:
  assumes "wf_storage s"
  shows "keyed u_id (users s)" and "keyed pj_id (projects s)"
    and "keyed pp_id (proposals s)" and "keyed pay_id (payments s)"
  using assms by (simp_all add: wf_storage_def)

text \<open>
  C2. When an accept succeeds (the caller is the buyer of the proposal's project), the
  answer is the accepted proposal; in the resulting store the proposal is accepted, its
  project is in progress, every other proposal of the same project that was pending is
  rejected and every other proposal is unchanged. When no other proposal is on the project
  the loop rejects nothing: only the proposal and the project have changed.
\<close>

theorem acceptProposal_cascade:
  assumes "wf_storage s"
    and "isAuthenticated sess" and "checkRole role_buyer sess"
    and "getProposal s pid = Some p"
    and "getProject s (pp_projectId p) = Some pj"
    and "getCurrentUser s sess = Some u" and "u_id u = pj_buyerId pj"
  shows "fst (patchProposalStatus s sess pid (Some accepted)) = Inr (Some (p\<lparr>pp_status := accepted\<rparr>))
    \<and> getProposal (snd (patchProposalStatus s sess pid (Some accepted))) pid
        = Some (p\<lparr>pp_status := accepted\<rparr>)
    \<and> getProject (snd (patchProposalStatus s sess pid (Some accepted))) (pp_projectId p)
        = Some (pj\<lparr>pj_status := pj_in_progress\<rparr>)
    \<and> (\<forall>q pq. q \<noteq> pid \<and> getProposal s q = Some pq \<longrightarrow>
          getProposal (snd (patchProposalStatus s sess pid (Some accepted))) q
            = Some (if pp_projectId pq = pp_projectId p \<and> pp_status pq = pending
                    then pq\<lparr>pp_status := rejected\<rparr> else pq))
    \<and> ((\<forall>q pq. q \<noteq> pid \<and> getProposal s q = Some pq \<longrightarrow> pp_projectId pq \<noteq> pp_projectId p) \<longrightarrow>
          snd (patchProposalStatus s sess pid (Some accepted))
            = s\<lparr>proposals := AList.update pid (p\<lparr>pp_status := accepted\<rparr>) (proposals s),
                projects := AList.update (pp_projectId p) (pj\<lparr>pj_status := pj_in_progress\<rparr>)
                              (projects s)\<rparr>)"
proof -
  note kp = wf_storage_keyed(3) [OF assms(1)] and kj = wf_storage_keyed(2) [OF assms(1)]
  note a = assms(2-7)
  have 1: "fst (patchProposalStatus s sess pid (Some accepted)) = Inr (Some (p\<lparr>pp_status := accepted\<rparr>))"
    using patchProposalStatus_authorised [OF a, of accepted] by (simp add: Let_def)
  have 2: "getProposal (snd (patchProposalStatus s sess pid (Some accepted))) pid
        = Some (p\<lparr>pp_status := accepted\<rparr>)"
    using accept_proposals [OF kp kj a, of pid] a(3) by simp
  have 3: "getProject (snd (patchProposalStatus s sess pid (Some accepted))) (pp_projectId p)
        = Some (pj\<lparr>pj_status := pj_in_progress\<rparr>)"
    by (simp add: getProject_def accept_projects [OF kj a] AList.update_conv')
  have 4: "getProposal (snd (patchProposalStatus s sess pid (Some accepted))) q
            = Some (if pp_projectId pq = pp_projectId p \<and> pp_status pq = pending
                    then pq\<lparr>pp_status := rejected\<rparr> else pq)"
    if "q \<noteq> pid \<and> getProposal s q = Some pq" for q pq
    using accept_proposals [OF kp kj a, of q] that by simp
  have 5: "snd (patchProposalStatus s sess pid (Some accepted))
            = s\<lparr>proposals := AList.update pid (p\<lparr>pp_status := accepted\<rparr>) (proposals s),
                projects := AList.update (pp_projectId p) (pj\<lparr>pj_status := pj_in_progress\<rparr>)
                              (projects s)\<rparr>"
    if "\<forall>q pq. q \<noteq> pid \<and> getProposal s q = Some pq \<longrightarrow> pp_projectId pq \<noteq> pp_projectId p"
    using accept_alone [OF kp kj a that] .
  from 1 2 3 4 5 show ?thesis by blast
qed

theorem acceptProposal_cascade_witness:
  "wf_storage twoPending \<and> getProposal twoPending 1 = Some proposalA
   \<and> getProposal twoPending 2 = Some proposalB
   \<and> fst (patchProposalStatus twoPending (sessionOf 1 role_buyer) 1 (Some accepted))
       = Inr (Some (proposalA\<lparr>pp_status := accepted\<rparr>))
   \<and> getProject (snd (patchProposalStatus twoPending (sessionOf 1 role_buyer) 1 (Some accepted))) 1
       = Some (projectP\<lparr>pj_status := pj_in_progress\<rparr>)
   \<and> getProposal (snd (patchProposalStatus twoPending (sessionOf 1 role_buyer) 1 (Some accepted))) 2
       = Some (proposalB\<lparr>pp_status := rejected\<rparr>)
   \<and> snd (patchProposalStatus onePending (sessionOf 1 role_buyer) 1 (Some accepted))
       = onePending\<lparr>proposals := AList.update 1 (proposalA\<lparr>pp_status := accepted\<rparr>) (proposals onePending),
           projects := AList.update 1 (projectP\<lparr>pj_status := pj_in_progress\<rparr>) (projects onePending)\<rparr>"
proof -
  have w2: "wf_storage twoPending" by code_simp
  have w1: "wf_storage onePending" by code_simp
  have au: "isAuthenticated (sessionOf 1 role_buyer)" "checkRole role_buyer (sessionOf 1 role_buyer)"
    by code_simp+
  have a2: "getProposal twoPending 1 = Some proposalA" by code_simp
  have b2: "getProposal twoPending 2 = Some proposalB" by code_simp
  have a1: "getProposal onePending 1 = Some proposalA" by code_simp
  have j2: "getProject twoPending (pp_projectId proposalA) = Some projectP" by code_simp
  have j1: "getProject onePending (pp_projectId proposalA) = Some projectP" by code_simp
  have u2: "getCurrentUser twoPending (sessionOf 1 role_buyer) = Some buyerUser" by code_simp
  have u1: "getCurrentUser onePending (sessionOf 1 role_buyer) = Some buyerUser" by code_simp
  have ub: "u_id buyerUser = pj_buyerId projectP" by code_simp
  have pa: "pp_projectId proposalA = 1" "pp_projectId proposalB = 1" "pp_status proposalB = pending"
    by (simp_all add: proposalA_def proposalB_def)
  have alone: "\<forall>q pq. q \<noteq> 1 \<and> getProposal onePending q = Some pq \<longrightarrow>
      pp_projectId pq \<noteq> pp_projectId proposalA"
  proof -
    have "proposals onePending = [(1, proposalA)]" by code_simp
    then show ?thesis by (simp add: getProposal_def)
  qed
  note c2 = acceptProposal_cascade [OF w2 au a2 j2 u2 ub]
  note c1 = acceptProposal_cascade [OF w1 au a1 j1 u1 ub]
  from c2 have r2: "getProposal (snd (patchProposalStatus twoPending (sessionOf 1 role_buyer) 1 (Some accepted))) 2
       = Some (proposalB\<lparr>pp_status := rejected\<rparr>)"
    using b2 pa by simp
  from c1 alone have r1: "snd (patchProposalStatus onePending (sessionOf 1 role_buyer) 1 (Some accepted))
       = onePending\<lparr>proposals := AList.update 1 (proposalA\<lparr>pp_status := accepted\<rparr>) (proposals onePending),
           projects := AList.update 1 (projectP\<lparr>pj_status := pj_in_progress\<rparr>) (projects onePending)\<rparr>"
    by (simp add: pa)
  from c2 w2 a2 b2 r2 r1 show ?thesis by (simp add: pa)
qed

section \<open>Failures of the status route\<close>

text \<open>
  C3 as stated fails: the buyer's second accept of the accepted first proposal is
  answered with the proposal (status 200), not with an error; and an accept of the
  accepted proposal while the second one is pending again rejects the second one, so the
  store changes.
\<close>

theorem acceptProposal_twice_counterexample:
  "getProposal firstAccepted 1 = Some (proposalA\<lparr>pp_status := accepted\<rparr>)
   \<and> fst (patchProposalStatus firstAccepted (sessionOf 1 role_buyer) 1 (Some accepted))
       = Inr (Some (proposalA\<lparr>pp_status := accepted\<rparr>))
   \<and> getProposal secondReopened 1 = Some (proposalA\<lparr>pp_status := accepted\<rparr>)
   \<and> getProposal secondReopened 2 = Some proposalB
   \<and> getProposal (snd (patchProposalStatus secondReopened (sessionOf 1 role_buyer) 1 (Some accepted))) 2
       = Some (proposalB\<lparr>pp_status := rejected\<rparr>)"
  by code_simp

text \<open>
  C3, amended. For a buyer's request with a valid status: the answer is 404 when the
  proposal or its project is missing and 403 when the caller is not the buyer of the
  project, and the store is unchanged in these cases. Otherwise the request succeeds
  whatever the current status of the proposal is: the handler has no check of it.
\<close>

theorem patchProposalStatus_failures:
  assumes "isAuthenticated sess" and "checkRole role_buyer sess"
  shows "(getProposal s pid = None \<longrightarrow>
            patchProposalStatus s sess pid (Some st) = (Inl (NotFound ''Proposal not found''), s))
    \<and> (\<forall>p. getProposal s pid = Some p \<and> getProject s (pp_projectId p) = None \<longrightarrow>
            patchProposalStatus s sess pid (Some st) = (Inl (NotFound ''Project not found''), s))
    \<and> (\<forall>p pj. getProposal s pid = Some p \<and> getProject s (pp_projectId p) = Some pj
            \<and> (\<forall>u. getCurrentUser s sess = Some u \<longrightarrow> u_id u \<noteq> pj_buyerId pj) \<longrightarrow>
            patchProposalStatus s sess pid (Some st)
              = (Inl (Forbidden ''You don't have permission to update this proposal''), s))
    \<and> (\<forall>p pj u. getProposal s pid = Some p \<and> getProject s (pp_projectId p) = Some pj
            \<and> getCurrentUser s sess = Some u \<and> u_id u = pj_buyerId pj \<longrightarrow>
            fst (patchProposalStatus s sess pid (Some st)) = Inr (Some (p\<lparr>pp_status := st\<rparr>)))"
proof -
  have 1: "patchProposalStatus s sess pid (Some st) = (Inl (NotFound ''Proposal not found''), s)"
    if "getProposal s pid = None"
    using assms that by (simp add: patchProposalStatus_def)
  have 2: "patchProposalStatus s sess pid (Some st) = (Inl (NotFound ''Project not found''), s)"
    if "getProposal s pid = Some p \<and> getProject s (pp_projectId p) = None" for p
    using assms that by (simp add: patchProposalStatus_def)
  have 3: "patchProposalStatus s sess pid (Some st)
              = (Inl (Forbidden ''You don't have permission to update this proposal''), s)"
    if "getProposal s pid = Some p \<and> getProject s (pp_projectId p) = Some pj
            \<and> (\<forall>u. getCurrentUser s sess = Some u \<longrightarrow> u_id u \<noteq> pj_buyerId pj)" for p pj
    using assms that by (simp add: patchProposalStatus_def split: option.splits)
  have 4: "fst (patchProposalStatus s sess pid (Some st)) = Inr (Some (p\<lparr>pp_status := st\<rparr>))"
    if "getProposal s pid = Some p \<and> getProject s (pp_projectId p) = Some pj
            \<and> getCurrentUser s sess = Some u \<and> u_id u = pj_buyerId pj" for p pj u
    using patchProposalStatus_authorised [OF assms, of s pid p pj u st] that
    by (simp add: Let_def)
  from 1 2 3 4 show ?thesis by blast
qed

theorem patchProposalStatus_failures_witness:
  "isAuthenticated (sessionOf 1 role_buyer) \<and> checkRole role_buyer (sessionOf 1 role_buyer)
   \<and> isAuthenticated (sessionOf 4 role_buyer) \<and> checkRole role_buyer (sessionOf 4 role_buyer)
   \<and> getProposal firstAccepted 9 = None
   \<and> patchProposalStatus firstAccepted (sessionOf 1 role_buyer) 9 (Some accepted)
       = (Inl (NotFound ''Proposal not found''), firstAccepted)
   \<and> getProposal (twoPending\<lparr>projects := []\<rparr>) 1 = Some proposalA
   \<and> patchProposalStatus (twoPending\<lparr>projects := []\<rparr>) (sessionOf 1 role_buyer) 1 (Some accepted)
       = (Inl (NotFound ''Project not found''), twoPending\<lparr>projects := []\<rparr>)
   \<and> getCurrentUser twoPending (sessionOf 4 role_buyer) = Some otherBuyer
   \<and> patchProposalStatus twoPending (sessionOf 4 role_buyer) 1 (Some accepted)
       = (Inl (Forbidden ''You don't have permission to update this proposal''), twoPending)
   \<and> getProposal firstAccepted 2 = Some (proposalB\<lparr>pp_status := rejected\<rparr>)
   \<and> fst (patchProposalStatus firstAccepted (sessionOf 1 role_buyer) 2 (Some accepted))
       = Inr (Some (proposalB\<lparr>pp_status := accepted\<rparr>))"
proof -
  have a1: "isAuthenticated (sessionOf 1 role_buyer)" "checkRole role_buyer (sessionOf 1 role_buyer)"
    by code_simp+
  have a4: "isAuthenticated (sessionOf 4 role_buyer)" "checkRole role_buyer (sessionOf 4 role_buyer)"
    by code_simp+
  have n: "getProposal firstAccepted 9 = None" by code_simp
  have o: "getProposal (twoPending\<lparr>projects := []\<rparr>) 1 = Some proposalA"
    "getProject (twoPending\<lparr>projects := []\<rparr>) (pp_projectId proposalA) = None" by code_simp+
  have f: "getProposal twoPending 1 = Some proposalA"
    "getProject twoPending (pp_projectId proposalA) = Some projectP"
    "getCurrentUser twoPending (sessionOf 4 role_buyer) = Some otherBuyer"
    "u_id otherBuyer \<noteq> pj_buyerId projectP" by code_simp+
  have r: "getProposal firstAccepted 2 = Some (proposalB\<lparr>pp_status := rejected\<rparr>)"
    "getProject firstAccepted (pp_projectId (proposalB\<lparr>pp_status := rejected\<rparr>))
       = Some (projectP\<lparr>pj_status := pj_in_progress\<rparr>)"
    "getCurrentUser firstAccepted (sessionOf 1 role_buyer) = Some buyerUser"
    "u_id buyerUser = pj_buyerId (projectP\<lparr>pj_status := pj_in_progress\<rparr>)" by code_simp+
  note c1 = patchProposalStatus_failures [OF a1, of firstAccepted 9 accepted]
  note c2 = patchProposalStatus_failures [OF a1, of "twoPending\<lparr>projects := []\<rparr>" 1 accepted]
  note c3 = patchProposalStatus_failures [OF a4, of twoPending 1 accepted]
  note c4 = patchProposalStatus_failures [OF a1, of firstAccepted 2 accepted]
  have r1: "patchProposalStatus firstAccepted (sessionOf 1 role_buyer) 9 (Some accepted)
       = (Inl (NotFound ''Proposal not found''), firstAccepted)"
    using c1 n by blast
  have r2: "patchProposalStatus (twoPending\<lparr>projects := []\<rparr>) (sessionOf 1 role_buyer) 1 (Some accepted)
       = (Inl (NotFound ''Project not found''), twoPending\<lparr>projects := []\<rparr>)"
    using c2 o by blast
  have r3: "patchProposalStatus twoPending (sessionOf 4 role_buyer) 1 (Some accepted)
       = (Inl (Forbidden ''You don't have permission to update this proposal''), twoPending)"
    using c3 f by auto
  have r4: "fst (patchProposalStatus firstAccepted (sessionOf 1 role_buyer) 2 (Some accepted))
       = Inr (Some (proposalB\<lparr>pp_status := accepted\<rparr>))"
    using c4 r by auto
  from a1 a4 n o(1) f(3) r(1) r1 r2 r3 r4 show ?thesis by blast
qed

section \<open>Submitting a proposal\<close>

lemma update_fresh: "k \<notin> fst ` set al \<Longrightarrow> AList.update k v al = al @ [(k, v)]"
  by (induction al) auto

lemma below_fresh: "below c al \<Longrightarrow> c \<notin> fst ` set al"
  by (auto simp: below_def list_all_iff)

lemma alreadySubmitted_iff:
  "list_ex (\<lambda>p. pp_sellerId p = uid) (getProposalsByProject s P) \<longleftrightarrow>
     (\<exists>p \<in> snd ` set (proposals s). pp_projectId p = P \<and> pp_sellerId p = uid)"
  by (auto simp: list_ex_iff set_getProposalsByProject)

lemma postProposal_not_open:
  assumes "isAuthenticated sess" and "checkRole role_seller sess"
    and "getProject (store w) P = Some pj" and "pj_status pj \<noteq> pj_open"
  shows "postProposal e w sess P body
     = (Inl (BadRequest ''This project is not accepting proposals''), w)"
  using assms by (simp add: postProposal_def)


lemma postProposal_created:
  assumes "isAuthenticated sess" and "checkRole role_seller sess"
    and "getProject (store w) P = Some pj" and "pj_status pj = pj_open"
    and "getCurrentUser (store w) sess = Some u"
    and "insertProposalSchema_parse body P (u_id u) = Some v"
    and "\<not> (\<exists>p \<in> snd ` set (proposals (store w)). pp_projectId p = P \<and> pp_sellerId p = u_id u)"
  shows "fst (postProposal e w sess P body) = Inr (fst (createProposal (now e) (store w) v))"
    and "store (snd (postProposal e w sess P body)) = snd (createProposal (now e) (store w) v)"
    and "outbox (snd (postProposal e w sess P body)) =
       (case getUser (store w) (pj_buyerId pj) of
          None \<Rightarrow> outbox w
        | Some b \<Rightarrow> snd (sendProposalReceivedEmail e (outbox w) (u_email b) (pj_title pj) (u_name u)))"
proof -
  have n: "\<not> list_ex (\<lambda>p. pp_sellerId p = u_id u) (getProposalsByProject (store w) P)"
    using assms(7) by (simp only: alreadySubmitted_iff not_False_eq_True)
  show "fst (postProposal e w sess P body) = Inr (fst (createProposal (now e) (store w) v))"
    using assms(1-6) n by (simp add: postProposal_def Let_def split_beta)
  show "store (snd (postProposal e w sess P body)) = snd (createProposal (now e) (store w) v)"
    using assms(1-6) n by (simp add: postProposal_def Let_def split_beta)
  show "outbox (snd (postProposal e w sess P body)) =
       (case getUser (store w) (pj_buyerId pj) of
          None \<Rightarrow> outbox w
        | Some b \<Rightarrow> snd (sendProposalReceivedEmail e (outbox w) (u_email b) (pj_title pj) (u_name u)))"
    using assms(1-6) n
    by (simp add: postProposal_def Let_def split_beta createProposal_def getUser_def)
qed

lemma parse_fields:
  "insertProposalSchema_parse body P uid = Some v \<Longrightarrow> ipp_projectId v = P \<and> ipp_sellerId v = uid"
  by (auto simp: insertProposalSchema_parse_def split: option.splits)

lemma fst_createProposal:
  "pp_status (fst (createProposal t s v)) = pending"
  "pp_projectId (fst (createProposal t s v)) = ipp_projectId v"
  "pp_sellerId (fst (createProposal t s v)) = ipp_sellerId v"
  "pp_id (fst (createProposal t s v)) = proposalIdCounter s"
  by (simp_all add: createProposal_def Let_def)





text \<open>
  C10 as stated fails on the error that is answered: the second seller's proposal has
  been rejected by the cascade of the buyer's accept, the project is in progress, and the
  seller's further submission is answered ``not accepting proposals'', the error of the
  earlier check, not ``already submitted''.
\<close>

theorem resubmit_after_cascade_counterexample:
  "(2, proposalB\<lparr>pp_status := rejected\<rparr>) \<in> set (proposals firstAccepted)
   \<and> getCurrentUser firstAccepted (sessionOf 3 role_seller) = Some sellerB
   \<and> pp_sellerId (proposalB\<lparr>pp_status := rejected\<rparr>) = u_id sellerB
   \<and> postProposal (envAt 9) \<lparr>store = firstAccepted, outbox = []\<rparr> (sessionOf 3 role_seller) 1 bodyB
       = (Inl (BadRequest ''This project is not accepting proposals''),
          \<lparr>store = firstAccepted, outbox = []\<rparr>)
   \<and> BadRequest ''This project is not accepting proposals''
       \<noteq> BadRequest ''You already submitted a proposal for this project''"
  by code_simp

text \<open>
  C10, amended. The duplicate check does not look at the status. When the seller of the
  session has any proposal on the project in the table, whatever its status, a further
  submission by this seller on this project fails and changes nothing. When the request
  gets as far as the check (the caller is a seller, the project is open, the body is
  valid) the answer is the 400 ``already submitted''; when the project is not open the
  answer is the 400 ``not accepting proposals'' of the earlier check.
\<close>

theorem duplicate_check_status_blind:
  assumes "getCurrentUser (store w) sess = Some u"
    and "(q, p) \<in> set (proposals (store w))"
    and "pp_projectId p = P" and "pp_sellerId p = u_id u"
  shows "(\<exists>err. postProposal e w sess P body = (Inl err, w))
    \<and> (isAuthenticated sess \<and> checkRole role_seller sess
         \<and> (\<exists>pj. getProject (store w) P = Some pj \<and> pj_status pj = pj_open)
         \<and> insertProposalSchema_parse body P (u_id u) \<noteq> None \<longrightarrow>
       postProposal e w sess P body
         = (Inl (BadRequest ''You already submitted a proposal for this project''), w))
    \<and> (isAuthenticated sess \<and> checkRole role_seller sess
         \<and> (\<exists>pj. getProject (store w) P = Some pj \<and> pj_status pj \<noteq> pj_open) \<longrightarrow>
       postProposal e w sess P body
         = (Inl (BadRequest ''This project is not accepting proposals''), w))"
proof -
  have "p \<in> snd ` set (proposals (store w))"
    using assms(2) by (metis image_eqI snd_conv)
  with assms(3,4)
  have d: "list_ex (\<lambda>p. pp_sellerId p = u_id u) (getProposalsByProject (store w) P)"
    unfolding alreadySubmitted_iff by blast
  have 1: "\<exists>err. postProposal e w sess P body = (Inl err, w)"
    using assms(1) d by (simp add: postProposal_def Let_def split: option.splits)
  have 2: "postProposal e w sess P body
         = (Inl (BadRequest ''You already submitted a proposal for this project''), w)"
    if "isAuthenticated sess \<and> checkRole role_seller sess
         \<and> (\<exists>pj. getProject (store w) P = Some pj \<and> pj_status pj = pj_open)
         \<and> insertProposalSchema_parse body P (u_id u) \<noteq> None"
    using that assms(1) d by (auto simp: postProposal_def Let_def)
  have 3: "postProposal e w sess P body
         = (Inl (BadRequest ''This project is not accepting proposals''), w)"
    if "isAuthenticated sess \<and> checkRole role_seller sess
         \<and> (\<exists>pj. getProject (store w) P = Some pj \<and> pj_status pj \<noteq> pj_open)"
    using that by (auto simp: postProposal_not_open)
  from 1 2 3 show ?thesis by blast
qed

theorem duplicate_check_status_blind_witness:
  "getCurrentUser (store firstRejectedW) (sessionOf 2 role_seller) = Some sellerA
   \<and> (1, proposalA\<lparr>pp_status := rejected\<rparr>) \<in> set (proposals (store firstRejectedW))
   \<and> pp_status (proposalA\<lparr>pp_status := rejected\<rparr>) = rejected
   \<and> getProject (store firstRejectedW) 1 = Some projectP \<and> pj_status projectP = pj_open
   \<and> postProposal (envAt 9) firstRejectedW (sessionOf 2 role_seller) 1 bodyB
       = (Inl (BadRequest ''You already submitted a proposal for this project''), firstRejectedW)
   \<and> (2, proposalB\<lparr>pp_status := rejected\<rparr>) \<in> set (proposals firstAccepted)
   \<and> getProject firstAccepted 1 = Some (projectP\<lparr>pj_status := pj_in_progress\<rparr>)
   \<and> postProposal (envAt 9) \<lparr>store = firstAccepted, outbox = []\<rparr> (sessionOf 3 role_seller) 1 bodyB
       = (Inl (BadRequest ''This project is not accepting proposals''),
          \<lparr>store = firstAccepted, outbox = []\<rparr>)"
proof -
  have u: "getCurrentUser (store firstRejectedW) (sessionOf 2 role_seller) = Some sellerA"
    by code_simp
  have m: "(1, proposalA\<lparr>pp_status := rejected\<rparr>) \<in> set (proposals (store firstRejectedW))"
    by code_simp
  have f: "pp_projectId (proposalA\<lparr>pp_status := rejected\<rparr>) = 1"
    "pp_sellerId (proposalA\<lparr>pp_status := rejected\<rparr>) = u_id sellerA"
    "pp_status (proposalA\<lparr>pp_status := rejected\<rparr>) = rejected"
    "pj_status projectP = pj_open"
    by (simp_all add: proposalA_def sellerA_def projectP_def)
  have au: "isAuthenticated (sessionOf 2 role_seller)" "checkRole role_seller (sessionOf 2 role_seller)"
    by code_simp+
  have pj: "getProject (store firstRejectedW) 1 = Some projectP" by code_simp
  have pv: "insertProposalSchema_parse bodyB 1 (u_id sellerA) \<noteq> None" by code_simp
  note c = duplicate_check_status_blind [OF u m f(1,2), of "envAt 9" bodyB]
  have r: "postProposal (envAt 9) firstRejectedW (sessionOf 2 role_seller) 1 bodyB
       = (Inl (BadRequest ''You already submitted a proposal for this project''), firstRejectedW)"
    using c au pj f(4) pv by blast
  have u3: "getCurrentUser (store \<lparr>store = firstAccepted, outbox = []\<rparr>) (sessionOf 3 role_seller)
      = Some sellerB" by code_simp
  have m3: "(2, proposalB\<lparr>pp_status := rejected\<rparr>)
      \<in> set (proposals (store \<lparr>store = firstAccepted, outbox = []\<rparr>))" by code_simp
  have f3: "pp_projectId (proposalB\<lparr>pp_status := rejected\<rparr>) = 1"
    "pp_sellerId (proposalB\<lparr>pp_status := rejected\<rparr>) = u_id sellerB"
    by (simp_all add: proposalB_def sellerB_def)
  have pj3: "getProject firstAccepted 1 = Some (projectP\<lparr>pj_status := pj_in_progress\<rparr>)"
    by code_simp
  have au3: "isAuthenticated (sessionOf 3 role_seller)" "checkRole role_seller (sessionOf 3 role_seller)"
    by code_simp+
  have "pj_status (projectP\<lparr>pj_status := pj_in_progress\<rparr>) \<noteq> pj_open" by simp
  with pj3 have "\<exists>pj. getProject (store \<lparr>store = firstAccepted, outbox = []\<rparr>) 1 = Some pj
            \<and> pj_status pj \<noteq> pj_open" by simp
  with au3 have h3: "isAuthenticated (sessionOf 3 role_seller)
      \<and> checkRole role_seller (sessionOf 3 role_seller)
      \<and> (\<exists>pj. getProject (store \<lparr>store = firstAccepted, outbox = []\<rparr>) 1 = Some pj
            \<and> pj_status pj \<noteq> pj_open)" by (intro conjI)
  note c3 = duplicate_check_status_blind [OF u3 m3 f3, of "envAt 9" bodyB]
  have r3: "postProposal (envAt 9) \<lparr>store = firstAccepted, outbox = []\<rparr> (sessionOf 3 role_seller) 1 bodyB
       = (Inl (BadRequest ''This project is not accepting proposals''),
          \<lparr>store = firstAccepted, outbox = []\<rparr>)"
    using c3 [THEN conjunct2, THEN conjunct2, THEN mp, OF h3] .
  have m3': "(2, proposalB\<lparr>pp_status := rejected\<rparr>) \<in> set (proposals firstAccepted)"
    using m3 by simp
  from u m f(3,4) pj r m3' pj3 r3 show ?thesis by (intro conjI)
qed

section \<open>Payments\<close>

text \<open>
  C9. \<open>updatePaymentStatus\<close> on an absent id changes nothing. On a present payment it
  stores the payment with the new status, with the payment-intent reference replaced only
  when a non-empty one is supplied, and with the id, amount, commission, project, buyer,
  seller and creation time as they were; every other payment and every other table is
  unchanged.
\<close>

theorem updatePaymentStatus_frame:
  "(map_of (payments s) i = None \<longrightarrow> updatePaymentStatus s i st sid = (None, s))
   \<and> (\<forall>p. map_of (payments s) i = Some p \<longrightarrow>
        (\<exists>p'. fst (updatePaymentStatus s i st sid) = Some p'
           \<and> map_of (payments (snd (updatePaymentStatus s i st sid))) i = Some p'
           \<and> pay_commission p' = pay_commission p \<and> pay_amount p' = pay_amount p
           \<and> pay_projectId p' = pay_projectId p \<and> pay_buyerId p' = pay_buyerId p
           \<and> pay_sellerId p' = pay_sellerId p \<and> pay_id p' = pay_id p
           \<and> pay_createdAt p' = pay_createdAt p
           \<and> pay_status p' = st
           \<and> pay_stripePaymentIntentId p' =
               (case sid of None \<Rightarrow> pay_stripePaymentIntentId p
                | Some x \<Rightarrow> if x = [] then pay_stripePaymentIntentId p else Some x)))
   \<and> (\<forall>j. j \<noteq> i \<longrightarrow>
         map_of (payments (snd (updatePaymentStatus s i st sid))) j = map_of (payments s) j)
   \<and> users (snd (updatePaymentStatus s i st sid)) = users s
   \<and> projects (snd (updatePaymentStatus s i st sid)) = projects s
   \<and> proposals (snd (updatePaymentStatus s i st sid)) = proposals s"
  by (cases "map_of (payments s) i")
    (simp_all add: updatePaymentStatus_def Let_def AList.update_conv')

theorem updatePaymentStatus_frame_witness:
  "map_of (payments (store paymentPendingW)) 1 = Some paymentOne
   \<and> pay_commission paymentOne = ''n''
   \<and> (\<exists>p'. fst (updatePaymentStatus (store paymentPendingW) 1 pay_completed None) = Some p'
         \<and> pay_commission p' = ''n'' \<and> pay_status p' = pay_completed
         \<and> pay_stripePaymentIntentId p' = Some ''pi_1'')
   \<and> map_of (payments (store paymentPendingW)) 2 = None
   \<and> updatePaymentStatus (store paymentPendingW) 2 pay_failed (Some ''pi_2'')
       = (None, store paymentPendingW)"
proof -
  have a: "map_of (payments (store paymentPendingW)) 1 = Some paymentOne" by code_simp
  have b: "map_of (payments (store paymentPendingW)) 2 = None" by code_simp
  have f: "pay_commission paymentOne = ''n''" "pay_stripePaymentIntentId paymentOne = Some ''pi_1''"
    by (simp_all add: paymentOne_def)
  note c1 = updatePaymentStatus_frame [of "store paymentPendingW" 1 pay_completed None]
  note c2 = updatePaymentStatus_frame [of "store paymentPendingW" 2 pay_failed "Some ''pi_2''"]
  from c1 a f
  have r1: "\<exists>p'. fst (updatePaymentStatus (store paymentPendingW) 1 pay_completed None) = Some p'
         \<and> pay_commission p' = ''n'' \<and> pay_status p' = pay_completed
         \<and> pay_stripePaymentIntentId p' = Some ''pi_1''"
    by auto
  from c2 b
  have r2: "updatePaymentStatus (store paymentPendingW) 2 pay_failed (Some ''pi_2'')
       = (None, store paymentPendingW)"
    by blast
  from a b f(1) r1 r2 show ?thesis by blast
qed

section \<open>Confirming a payment\<close>

lemma find_mem: "find Q xs = Some x \<Longrightarrow> x \<in> set xs \<and> Q x"
  by (induction xs) (auto split: if_splits)

lemma found_payment:
  assumes "keyed pay_id (payments s)"
    and "find Q (getPaymentsByBuyer s uid) = Some pay"
  shows "map_of (payments s) (pay_id pay) = Some pay"
proof -
  have "pay \<in> snd ` set (payments s)"
    using find_mem [OF assms(2)] by (auto simp: getPaymentsByBuyer_def newestFirst_def)
  then show ?thesis using keyed_mem [OF assms(1)] by simp
qed

text \<open>The two mails of a confirmation, as handed to the transport.\<close>

lemma postPaymentsConfirm_found:
  assumes "isAuthenticated sess" and "checkRole role_buyer sess" and "ref \<noteq> []"
    and "userId sess = Some uid"
    and "find (\<lambda>p. pay_stripePaymentIntentId p = Some ref) (getPaymentsByBuyer (store w) uid) = Some pay"
    and "map_of (payments (store w)) (pay_id pay) = Some pay"
  shows "fst (postPaymentsConfirm e w sess (Some ref)) = Inr (Some (pay\<lparr>pay_status := pay_completed\<rparr>))"
    and "store (snd (postPaymentsConfirm e w sess (Some ref)))
       = (store w)\<lparr>payments := AList.update (pay_id pay) (pay\<lparr>pay_status := pay_completed\<rparr>)
                                  (payments (store w))\<rparr>"
    and "outbox (snd (postPaymentsConfirm e w sess (Some ref)))
       = outbox w @ filter (sendMail e) (confirmationMails e (store w) pay)"
  using assms
  by (simp_all add: postPaymentsConfirm_def updatePaymentStatus_def Let_def getUser_def
      getProject_def confirmationMails_def sendPaymentProcessedEmail_def split: option.splits)


text \<open>
  C8. Whatever the mail transport does, a submission that passes the checks answers with
  the new proposal, which is in the table and pending; and a confirmation that finds the
  payment answers with the payment completed, which is what the table holds. When the
  transport rejects every mail, no mail has gone out and the store is the same.
\<close>

theorem mutation_survives_notification_failure:
  assumes "wf_storage (store w)"
  shows "(isAuthenticated sess \<and> checkRole role_seller sess
           \<and> getProject (store w) P = Some pj \<and> pj_status pj = pj_open
           \<and> getCurrentUser (store w) sess = Some u
           \<and> insertProposalSchema_parse body P (u_id u) = Some v
           \<and> \<not> (\<exists>p \<in> snd ` set (proposals (store w)). pp_projectId p = P \<and> pp_sellerId p = u_id u) \<longrightarrow>
          (\<exists>new. fst (postProposal e w sess P body) = Inr new \<and> pp_status new = pending
             \<and> getProposal (store (snd (postProposal e w sess P body))) (pp_id new) = Some new
             \<and> ((\<forall>m. \<not> sendMail e m) \<longrightarrow>
                  outbox (snd (postProposal e w sess P body)) = outbox w)))
    \<and> (isAuthenticated sess' \<and> checkRole role_buyer sess' \<and> ref \<noteq> [] \<and> userId sess' = Some uid
           \<and> find (\<lambda>p. pay_stripePaymentIntentId p = Some ref)
                (getPaymentsByBuyer (store w) uid) = Some pay \<longrightarrow>
          fst (postPaymentsConfirm e w sess' (Some ref))
            = Inr (Some (pay\<lparr>pay_status := pay_completed\<rparr>))
          \<and> map_of (payments (store (snd (postPaymentsConfirm e w sess' (Some ref))))) (pay_id pay)
              = Some (pay\<lparr>pay_status := pay_completed\<rparr>)
          \<and> ((\<forall>m. \<not> sendMail e m) \<longrightarrow>
                outbox (snd (postPaymentsConfirm e w sess' (Some ref))) = outbox w))"
proof -
  have nomail: "filter (sendMail e) ms = []" if "\<forall>m. \<not> sendMail e m" for ms
    using that by (induction ms) simp_all
  have A: "\<exists>new. fst (postProposal e w sess P body) = Inr new \<and> pp_status new = pending
             \<and> getProposal (store (snd (postProposal e w sess P body))) (pp_id new) = Some new
             \<and> ((\<forall>m. \<not> sendMail e m) \<longrightarrow>
                  outbox (snd (postProposal e w sess P body)) = outbox w)"
    if h: "isAuthenticated sess \<and> checkRole role_seller sess
           \<and> getProject (store w) P = Some pj \<and> pj_status pj = pj_open
           \<and> getCurrentUser (store w) sess = Some u
           \<and> insertProposalSchema_parse body P (u_id u) = Some v
           \<and> \<not> (\<exists>p \<in> snd ` set (proposals (store w)). pp_projectId p = P \<and> pp_sellerId p = u_id u)"
  proof -
    from h have h': "isAuthenticated sess" "checkRole role_seller sess"
      "getProject (store w) P = Some pj" "pj_status pj = pj_open"
      "getCurrentUser (store w) sess = Some u"
      "insertProposalSchema_parse body P (u_id u) = Some v"
      "\<not> (\<exists>p \<in> snd ` set (proposals (store w)). pp_projectId p = P \<and> pp_sellerId p = u_id u)"
      by blast+
    note c = postProposal_created [OF h', of e]
    have g: "getProposal (snd (createProposal (now e) (store w) v))
        (pp_id (fst (createProposal (now e) (store w) v))) = Some (fst (createProposal (now e) (store w) v))"
      by (simp add: createProposal_def Let_def getProposal_def AList.update_conv')
    have o: "outbox (snd (postProposal e w sess P body)) = outbox w" if "\<forall>m. \<not> sendMail e m"
      using that by (simp add: c(3) sendProposalReceivedEmail_def Let_def split: option.splits)
    show ?thesis using c(1,2) g o by (simp add: fst_createProposal)
  qed
  have B: "fst (postPaymentsConfirm e w sess' (Some ref))
            = Inr (Some (pay\<lparr>pay_status := pay_completed\<rparr>))
          \<and> map_of (payments (store (snd (postPaymentsConfirm e w sess' (Some ref))))) (pay_id pay)
              = Some (pay\<lparr>pay_status := pay_completed\<rparr>)
          \<and> ((\<forall>m. \<not> sendMail e m) \<longrightarrow>
                outbox (snd (postPaymentsConfirm e w sess' (Some ref))) = outbox w)"
    if h: "isAuthenticated sess' \<and> checkRole role_buyer sess' \<and> ref \<noteq> [] \<and> userId sess' = Some uid
           \<and> find (\<lambda>p. pay_stripePaymentIntentId p = Some ref)
                (getPaymentsByBuyer (store w) uid) = Some pay"
  proof -
    from h have h': "isAuthenticated sess'" "checkRole role_buyer sess'" "ref \<noteq> []"
      "userId sess' = Some uid"
      "find (\<lambda>p. pay_stripePaymentIntentId p = Some ref) (getPaymentsByBuyer (store w) uid) = Some pay"
      by blast+
    have m: "map_of (payments (store w)) (pay_id pay) = Some pay"
      using found_payment [OF wf_storage_keyed(4) [OF assms(1)] h'(5)] .
    note c = postPaymentsConfirm_found [OF h' m, of e]
    show ?thesis by (simp add: c nomail AList.update_conv')
  qed
  from A B show ?thesis by blast
qed

theorem mutation_survives_notification_failure_witness:
  "wf_storage (store noProposal) \<and> wf_storage (store paymentPendingW)
   \<and> (\<forall>m. \<not> sendMail (envNoMail 6) m) \<and> (\<forall>m. \<not> sendMail (envNoMail 10) m)
   \<and> (\<exists>new. fst (postProposal (envNoMail 6) noProposal (sessionOf 2 role_seller) 1 bodyA) = Inr new
         \<and> pp_status new = pending
         \<and> getProposal (store (snd (postProposal (envNoMail 6) noProposal (sessionOf 2 role_seller) 1 bodyA)))
             (pp_id new) = Some new
         \<and> outbox (snd (postProposal (envNoMail 6) noProposal (sessionOf 2 role_seller) 1 bodyA))
             = outbox noProposal)
   \<and> fst (postPaymentsConfirm (envNoMail 10) paymentPendingW (sessionOf 1 role_buyer) (Some ''pi_1''))
       = Inr (Some (paymentOne\<lparr>pay_status := pay_completed\<rparr>))
   \<and> map_of (payments (store (snd (postPaymentsConfirm (envNoMail 10) paymentPendingW
                                     (sessionOf 1 role_buyer) (Some ''pi_1''))))) (pay_id paymentOne)
       = Some (paymentOne\<lparr>pay_status := pay_completed\<rparr>)
   \<and> outbox (snd (postPaymentsConfirm (envNoMail 10) paymentPendingW (sessionOf 1 role_buyer)
                     (Some ''pi_1''))) = outbox paymentPendingW"
proof -
  define v where "v = \<lparr>ipp_serviceDetails = ''A'', ipp_price = ''800'', ipp_deliveryTime = 10,
     ipp_projectId = 1, ipp_sellerId = 2\<rparr>"
  have wf: "wf_storage (store noProposal)" "wf_storage (store paymentPendingW)" by code_simp+
  have nm: "\<forall>m. \<not> sendMail (envNoMail 6) m" "\<forall>m. \<not> sendMail (envNoMail 10) m"
    by (simp_all add: envNoMail_def)
  have hs: "isAuthenticated (sessionOf 2 role_seller) \<and> checkRole role_seller (sessionOf 2 role_seller)
      \<and> getProject (store noProposal) 1 = Some projectP \<and> pj_status projectP = pj_open
      \<and> getCurrentUser (store noProposal) (sessionOf 2 role_seller) = Some sellerA
      \<and> insertProposalSchema_parse bodyA 1 (u_id sellerA) = Some v
      \<and> \<not> (\<exists>p \<in> snd ` set (proposals (store noProposal)). pp_projectId p = 1 \<and> pp_sellerId p = u_id sellerA)"
    unfolding v_def by code_simp
  have hc: "isAuthenticated (sessionOf 1 role_buyer) \<and> checkRole role_buyer (sessionOf 1 role_buyer)
      \<and> ''pi_1'' \<noteq> [] \<and> userId (sessionOf 1 role_buyer) = Some 1
      \<and> find (\<lambda>p. pay_stripePaymentIntentId p = Some ''pi_1'')
           (getPaymentsByBuyer (store paymentPendingW) 1) = Some paymentOne"
    by code_simp
  note c1 = mutation_survives_notification_failure [OF wf(1),
      of "sessionOf 2 role_seller" 1 projectP sellerA bodyA v "envNoMail 6"]
  note c2 = mutation_survives_notification_failure [OF wf(2),
      of _ _ _ _ _ _ "envNoMail 10" "sessionOf 1 role_buyer" "''pi_1''" 1 paymentOne]
  from c1 [THEN conjunct1, THEN mp, OF hs] nm(1)
  have r1: "\<exists>new. fst (postProposal (envNoMail 6) noProposal (sessionOf 2 role_seller) 1 bodyA) = Inr new
         \<and> pp_status new = pending
         \<and> getProposal (store (snd (postProposal (envNoMail 6) noProposal (sessionOf 2 role_seller) 1 bodyA)))
             (pp_id new) = Some new
         \<and> outbox (snd (postProposal (envNoMail 6) noProposal (sessionOf 2 role_seller) 1 bodyA))
             = outbox noProposal"
    by blast
  from c2 [THEN conjunct2, THEN mp, OF hc] nm(2)
  have r2: "fst (postPaymentsConfirm (envNoMail 10) paymentPendingW (sessionOf 1 role_buyer) (Some ''pi_1''))
       = Inr (Some (paymentOne\<lparr>pay_status := pay_completed\<rparr>))
   \<and> map_of (payments (store (snd (postPaymentsConfirm (envNoMail 10) paymentPendingW
                                     (sessionOf 1 role_buyer) (Some ''pi_1''))))) (pay_id paymentOne)
       = Some (paymentOne\<lparr>pay_status := pay_completed\<rparr>)
   \<and> outbox (snd (postPaymentsConfirm (envNoMail 10) paymentPendingW (sessionOf 1 role_buyer)
                     (Some ''pi_1''))) = outbox paymentPendingW"
    by blast
  from wf nm r1 r2 show ?thesis by blast
qed

section \<open>Repeating a confirmation\<close>

lemma insort_key_map:
  assumes "\<And>x. f (h x) = f x"
  shows "insort_key f (h x) (map h xs) = map h (insort_key f x xs)"
  by (induction xs) (simp_all add: assms)

lemma sort_key_map:
  assumes "\<And>x. f (h x) = f x"
  shows "sort_key f (map h xs) = map h (sort_key f xs)"
  by (induction xs) (simp_all add: insort_key_map [of f h, OF assms])

lemma filter_map_inv:
  assumes "\<And>x. P (h x) = P x"
  shows "filter P (map h xs) = map h (filter P xs)"
  by (induction xs) (simp_all add: assms)

lemma find_map_inv:
  assumes "\<And>x. Q (h x) = Q x"
  shows "find Q (map h xs) = map_option h (find Q xs)"
  by (induction xs) (simp_all add: assms)

lemma values_update:
  assumes "keyed idf al" and "map_of al k = Some v" and "idf v' = k"
  shows "map snd (AList.update k v' al) = map (\<lambda>x. if idf x = k then v' else x) (map snd al)"
  using assms
proof (induction al)
  case Nil
  then show ?case by simp
next
  case (Cons a al)
  obtain k0 v0 where a: "a = (k0, v0)" by (cases a)
  from Cons.prems(1) have id0: "idf v0 = k0" and kal: "keyed idf al" and nk: "k0 \<notin> fst ` set al"
    and ids: "\<forall>(k', x) \<in> set al. idf x = k'"
    by (auto simp: keyed_def a list_all_iff)
  show ?case
  proof (cases "k0 = k")
    case True
    have "map (\<lambda>x. if idf x = k then v' else x) (map snd al) = map snd al"
    proof (rule map_idI)
      fix x assume "x \<in> set (map snd al)"
      then obtain k' where "(k', x) \<in> set al" by auto
      with ids nk True have "idf x \<noteq> k" by force
      then show "(if idf x = k then v' else x) = x" by simp
    qed
    with True id0 show ?thesis by (simp add: a)
  next
    case False
    with Cons.prems(2) have "map_of al k = Some v" by (simp add: a)
    from Cons.IH [OF kal this Cons.prems(3)] False id0 show ?thesis by (simp add: a)
  qed
qed


lemma below_update: "below c al \<Longrightarrow> k < c \<Longrightarrow> below c (AList.update k v al)"
  by (simp add: below_def list_all_update)

lemma below_map_of: "below c al \<Longrightarrow> map_of al k = Some v \<Longrightarrow> k < c"
  by (auto simp: below_def list_all_iff dest: map_of_SomeD)

lemma getPaymentsByBuyer_update:
  assumes "keyed pay_id (payments s)" and "map_of (payments s) k = Some pay"
  shows "getPaymentsByBuyer (s\<lparr>payments := AList.update k (pay\<lparr>pay_status := st\<rparr>) (payments s)\<rparr>) uid
     = map (\<lambda>x. if pay_id x = k then x\<lparr>pay_status := st\<rparr> else x) (getPaymentsByBuyer s uid)"
proof -
  let ?h = "\<lambda>x. if pay_id x = k then x\<lparr>pay_status := st\<rparr> else x"
  have k: "pay_id pay = k" using keyed_map_of [OF assms] .
  have "map snd (AList.update k (pay\<lparr>pay_status := st\<rparr>) (payments s))
      = map (\<lambda>x. if pay_id x = k then pay\<lparr>pay_status := st\<rparr> else x) (map snd (payments s))"
    using values_update [OF assms, of "pay\<lparr>pay_status := st\<rparr>"] k by simp
  also have "\<dots> = map ?h (map snd (payments s))"
  proof (rule map_cong [OF refl])
    fix x assume "x \<in> set (map snd (payments s))"
    then have "map_of (payments s) (pay_id x) = Some x"
      using keyed_mem [OF assms(1), of x] by simp
    with assms(2) show "(if pay_id x = k then pay\<lparr>pay_status := st\<rparr> else x) = ?h x"
      by auto
  qed
  finally have v: "map snd (AList.update k (pay\<lparr>pay_status := st\<rparr>) (payments s))
      = map ?h (map snd (payments s))" .
  have f: "filter (\<lambda>p. pay_buyerId p = uid) (map ?h xs) = map ?h (filter (\<lambda>p. pay_buyerId p = uid) xs)"
    for xs by (rule filter_map_inv) simp
  have o: "sort_key (\<lambda>x. - int (pay_createdAt x)) (map ?h xs)
      = map ?h (sort_key (\<lambda>x. - int (pay_createdAt x)) xs)" for xs
    by (rule sort_key_map) simp
  have "getPaymentsByBuyer (s\<lparr>payments := AList.update k (pay\<lparr>pay_status := st\<rparr>) (payments s)\<rparr>) uid
      = sort_key (\<lambda>x. - int (pay_createdAt x)) (filter (\<lambda>p. pay_buyerId p = uid)
          (map snd (AList.update k (pay\<lparr>pay_status := st\<rparr>) (payments s))))"
    by (simp add: getPaymentsByBuyer_def newestFirst_def)
  also have "\<dots> = map ?h (sort_key (\<lambda>x. - int (pay_createdAt x))
      (filter (\<lambda>p. pay_buyerId p = uid) (map snd (payments s))))"
    by (simp only: v f o)
  finally show ?thesis
    by (simp only: getPaymentsByBuyer_def newestFirst_def)
qed

text \<open>What a confirmation that finds the payment leaves behind, ready for the next one.\<close>

lemma confirm_again:
  assumes wf: "wf_storage (store w)"
    and au: "isAuthenticated sess" "checkRole role_buyer sess" "ref \<noteq> []" "userId sess = Some uid"
    and fd: "find (\<lambda>p. pay_stripePaymentIntentId p = Some ref) (getPaymentsByBuyer (store w) uid) = Some pay"
  shows "store (snd (postPaymentsConfirm e w sess (Some ref)))
       = (store w)\<lparr>payments := AList.update (pay_id pay) (pay\<lparr>pay_status := pay_completed\<rparr>)
                                  (payments (store w))\<rparr>"
    and "outbox (snd (postPaymentsConfirm e w sess (Some ref)))
       = outbox w @ filter (sendMail e) (confirmationMails e (store w) pay)"
    and "wf_storage (store (snd (postPaymentsConfirm e w sess (Some ref))))"
    and "find (\<lambda>p. pay_stripePaymentIntentId p = Some ref)
           (getPaymentsByBuyer (store (snd (postPaymentsConfirm e w sess (Some ref)))) uid)
         = Some (pay\<lparr>pay_status := pay_completed\<rparr>)"
    and "confirmationMails e' (store (snd (postPaymentsConfirm e w sess (Some ref))))
           (pay\<lparr>pay_status := pay_completed\<rparr>) = confirmationMails e' (store w) pay"
proof -
  note kp = wf_storage_keyed(4) [OF wf]
  have m: "map_of (payments (store w)) (pay_id pay) = Some pay"
    using found_payment [OF kp fd] .
  note c = postPaymentsConfirm_found [OF au fd m, of e]
  show 1: "store (snd (postPaymentsConfirm e w sess (Some ref)))
       = (store w)\<lparr>payments := AList.update (pay_id pay) (pay\<lparr>pay_status := pay_completed\<rparr>)
                                  (payments (store w))\<rparr>"
    by (rule c(2))
  show "outbox (snd (postPaymentsConfirm e w sess (Some ref)))
       = outbox w @ filter (sendMail e) (confirmationMails e (store w) pay)"
    by (rule c(3))
  have lt: "pay_id pay < paymentIdCounter (store w)"
    using wf m by (auto simp: wf_storage_def intro: below_map_of)
  show "wf_storage (store (snd (postPaymentsConfirm e w sess (Some ref))))"
    unfolding 1 using wf lt
    by (simp add: wf_storage_def keyed_update below_update)
  have "find (\<lambda>p. pay_stripePaymentIntentId p = Some ref)
      (map (\<lambda>x. if pay_id x = pay_id pay then x\<lparr>pay_status := pay_completed\<rparr> else x)
         (getPaymentsByBuyer (store w) uid))
    = map_option (\<lambda>x. if pay_id x = pay_id pay then x\<lparr>pay_status := pay_completed\<rparr> else x)
        (find (\<lambda>p. pay_stripePaymentIntentId p = Some ref) (getPaymentsByBuyer (store w) uid))"
    by (rule find_map_inv) simp
  then show "find (\<lambda>p. pay_stripePaymentIntentId p = Some ref)
           (getPaymentsByBuyer (store (snd (postPaymentsConfirm e w sess (Some ref)))) uid)
         = Some (pay\<lparr>pay_status := pay_completed\<rparr>)"
    unfolding 1 getPaymentsByBuyer_update [OF kp m] by (simp add: fd)
  show "confirmationMails e' (store (snd (postPaymentsConfirm e w sess (Some ref))))
           (pay\<lparr>pay_status := pay_completed\<rparr>) = confirmationMails e' (store w) pay"
    unfolding 1
    by (simp add: confirmationMails_def getUser_def getProject_def split: option.splits)
qed

lemma confirm_unfound:
  "\<not> (\<exists>ref uid pay. r = Some ref \<and> ref \<noteq> [] \<and> isAuthenticated sess \<and> checkRole role_buyer sess
        \<and> userId sess = Some uid
        \<and> find (\<lambda>p. pay_stripePaymentIntentId p = Some ref) (getPaymentsByBuyer (store w) uid) = Some pay)
   \<Longrightarrow> snd (postPaymentsConfirm e w sess r) = w"
  by (auto simp: postPaymentsConfirm_def split: option.splits)

lemma confirm_wf:
  "wf_storage (store w) \<Longrightarrow> wf_storage (store (snd (postPaymentsConfirm e w sess r)))"
  using confirm_again(3) [of w sess _ _ _ e] confirm_unfound [of r sess w e]
  by (cases "\<exists>ref uid pay. r = Some ref \<and> ref \<noteq> [] \<and> isAuthenticated sess \<and> checkRole role_buyer sess
        \<and> userId sess = Some uid
        \<and> find (\<lambda>p. pay_stripePaymentIntentId p = Some ref) (getPaymentsByBuyer (store w) uid) = Some pay")
    auto

lemma confirm_twice:
  assumes "wf_storage (store w)"
  shows "store (snd (postPaymentsConfirm e' (snd (postPaymentsConfirm e w sess r)) sess r))
     = store (snd (postPaymentsConfirm e w sess r))"
proof (cases "\<exists>ref uid pay. r = Some ref \<and> ref \<noteq> [] \<and> isAuthenticated sess \<and> checkRole role_buyer sess
        \<and> userId sess = Some uid
        \<and> find (\<lambda>p. pay_stripePaymentIntentId p = Some ref) (getPaymentsByBuyer (store w) uid) = Some pay")
  case False
  from confirm_unfound [OF this] have "snd (postPaymentsConfirm e w sess r) = w" .
  moreover from confirm_unfound [OF False] have "snd (postPaymentsConfirm e' w sess r) = w" .
  ultimately show ?thesis by simp
next
  case True
  then obtain ref uid pay where r: "r = Some ref"
    and au: "isAuthenticated sess" "checkRole role_buyer sess" "ref \<noteq> []" "userId sess = Some uid"
    and fd: "find (\<lambda>p. pay_stripePaymentIntentId p = Some ref) (getPaymentsByBuyer (store w) uid) = Some pay"
    by blast
  note a = confirm_again [OF assms au fd, of e]
  note b = confirm_again(1) [OF a(3) au a(4), of e']
  have "map_of (payments (store (snd (postPaymentsConfirm e w sess (Some ref))))) (pay_id pay)
      = Some (pay\<lparr>pay_status := pay_completed\<rparr>)"
    unfolding a(1) by (simp add: AList.update_conv')
  then have "AList.update (pay_id pay) (pay\<lparr>pay_status := pay_completed\<rparr>)
      (payments (store (snd (postPaymentsConfirm e w sess (Some ref)))))
    = payments (store (snd (postPaymentsConfirm e w sess (Some ref))))"
    by (rule AList.update_triv)
  with b show ?thesis unfolding r by simp
qed


lemma confirmTimes_store:
  "wf_storage (store w) \<Longrightarrow>
     store (confirmTimes (Suc n) e sess r w) = store (snd (postPaymentsConfirm e w sess r))"
proof (induction n arbitrary: w)
  case 0
  show ?case by simp
next
  case (Suc n)
  have "store (confirmTimes (Suc (Suc n)) e sess r w)
      = store (confirmTimes (Suc n) e sess r (snd (postPaymentsConfirm e w sess r)))"
    by simp
  also have "\<dots> = store (snd (postPaymentsConfirm e (snd (postPaymentsConfirm e w sess r)) sess r))"
    by (rule Suc.IH [OF confirm_wf [OF Suc.prems]])
  also have "\<dots> = store (snd (postPaymentsConfirm e w sess r))"
    by (rule confirm_twice [OF Suc.prems])
  finally show ?case .
qed

lemma confirmTimes_outbox:
  assumes "wf_storage (store w)"
    and "isAuthenticated sess" "checkRole role_buyer sess" "ref \<noteq> []" "userId sess = Some uid"
    and "find (\<lambda>p. pay_stripePaymentIntentId p = Some ref) (getPaymentsByBuyer (store w) uid) = Some pay"
  shows "outbox (confirmTimes n e sess (Some ref) w)
     = outbox w @ concat (replicate n (filter (sendMail e) (confirmationMails e (store w) pay)))"
  using assms(1,6)
proof (induction n arbitrary: w pay)
  case 0
  show ?case by simp
next
  case (Suc n)
  note a = confirm_again [OF Suc.prems(1) assms(2-5) Suc.prems(2)]
  have "outbox (confirmTimes (Suc n) e sess (Some ref) w)
      = outbox (confirmTimes n e sess (Some ref) (snd (postPaymentsConfirm e w sess (Some ref))))"
    by simp
  also have "\<dots> = outbox (snd (postPaymentsConfirm e w sess (Some ref)))
      @ concat (replicate n (filter (sendMail e)
          (confirmationMails e (store (snd (postPaymentsConfirm e w sess (Some ref))))
             (pay\<lparr>pay_status := pay_completed\<rparr>))))"
    by (rule Suc.IH [OF a(3) a(4)])
  also have "\<dots> = outbox w @ concat (replicate (Suc n)
      (filter (sendMail e) (confirmationMails e (store w) pay)))"
    by (simp add: a(2) a(5))
  finally show ?case .
qed

text \<open>
  C4 as stated fails on the notifications: after the buyer has initiated the payment, one
  confirmation completes it and sends the two mails, and a second confirmation with the
  same reference sends the same two mails again.
\<close>

theorem confirmPayment_twice_counterexample:
  "map_option pay_status
     (map_of (payments (store (confirmTimes 1 (envAt 10) (sessionOf 1 role_buyer) (Some ''pi_1'')
                                  paymentPendingW))) 1) = Some pay_completed
   \<and> outbox (confirmTimes 1 (envAt 10) (sessionOf 1 role_buyer) (Some ''pi_1'') paymentPendingW)
       = outbox paymentPendingW
         @ [PaymentProcessed ''buyer@example.com'' ''P'' ''n.nn'',
            PaymentProcessed ''a@example.com'' ''P'' ''n.nn'']
   \<and> outbox (confirmTimes 2 (envAt 10) (sessionOf 1 role_buyer) (Some ''pi_1'') paymentPendingW)
       = outbox paymentPendingW
         @ [PaymentProcessed ''buyer@example.com'' ''P'' ''n.nn'',
            PaymentProcessed ''a@example.com'' ''P'' ''n.nn'',
            PaymentProcessed ''buyer@example.com'' ''P'' ''n.nn'',
            PaymentProcessed ''a@example.com'' ''P'' ''n.nn'']"
  by code_simp

text \<open>
  C4, amended. On the store the confirmation is idempotent: \<open>n \<ge> 1\<close> calls with the same
  reference leave the store that one call leaves. The mails are not sent once only: when
  the payment is found, each of the \<open>n\<close> calls hands the mails of the confirmation to the
  transport again.
\<close>

theorem confirmPayment_repeated:
  assumes "wf_storage (store w)"
  shows "(0 < n \<longrightarrow>
           store (confirmTimes n e sess r w) = store (snd (postPaymentsConfirm e w sess r)))
    \<and> (\<forall>ref uid pay. r = Some ref \<and> ref \<noteq> [] \<and> isAuthenticated sess \<and> checkRole role_buyer sess
          \<and> userId sess = Some uid
          \<and> find (\<lambda>p. pay_stripePaymentIntentId p = Some ref)
               (getPaymentsByBuyer (store w) uid) = Some pay \<longrightarrow>
         outbox (confirmTimes n e sess r w)
           = outbox w @ concat (replicate n (filter (sendMail e) (confirmationMails e (store w) pay))))"
proof -
  have 1: "store (confirmTimes n e sess r w) = store (snd (postPaymentsConfirm e w sess r))"
    if "0 < n"
  proof -
    from that obtain m where "n = Suc m" by (cases n) auto
    then show ?thesis using confirmTimes_store [OF assms] by simp
  qed
  have 2: "outbox (confirmTimes n e sess r w)
           = outbox w @ concat (replicate n (filter (sendMail e) (confirmationMails e (store w) pay)))"
    if "r = Some ref \<and> ref \<noteq> [] \<and> isAuthenticated sess \<and> checkRole role_buyer sess
          \<and> userId sess = Some uid
          \<and> find (\<lambda>p. pay_stripePaymentIntentId p = Some ref)
               (getPaymentsByBuyer (store w) uid) = Some pay" for ref uid pay
    using confirmTimes_outbox [OF assms, of sess ref uid pay n e] that by simp
  from 1 2 show ?thesis by blast
qed

theorem confirmPayment_repeated_witness:
  "wf_storage (store paymentPendingW)
   \<and> store (confirmTimes 3 (envAt 10) (sessionOf 1 role_buyer) (Some ''pi_1'') paymentPendingW)
       = store (snd (postPaymentsConfirm (envAt 10) paymentPendingW (sessionOf 1 role_buyer)
                       (Some ''pi_1'')))
   \<and> filter (sendMail (envAt 10)) (confirmationMails (envAt 10) (store paymentPendingW) paymentOne)
       = [PaymentProcessed ''buyer@example.com'' ''P'' ''n.nn'',
          PaymentProcessed ''a@example.com'' ''P'' ''n.nn'']
   \<and> outbox (confirmTimes 3 (envAt 10) (sessionOf 1 role_buyer) (Some ''pi_1'') paymentPendingW)
       = outbox paymentPendingW
         @ concat (replicate 3 (filter (sendMail (envAt 10))
                     (confirmationMails (envAt 10) (store paymentPendingW) paymentOne)))"
proof -
  have wf: "wf_storage (store paymentPendingW)" by code_simp
  have h: "Some ''pi_1'' = Some ''pi_1'' \<and> ''pi_1'' \<noteq> [] \<and> isAuthenticated (sessionOf 1 role_buyer)
      \<and> checkRole role_buyer (sessionOf 1 role_buyer) \<and> userId (sessionOf 1 role_buyer) = Some 1
      \<and> find (\<lambda>p. pay_stripePaymentIntentId p = Some ''pi_1'')
           (getPaymentsByBuyer (store paymentPendingW) 1) = Some paymentOne"
    by code_simp
  have ms: "filter (sendMail (envAt 10)) (confirmationMails (envAt 10) (store paymentPendingW) paymentOne)
       = [PaymentProcessed ''buyer@example.com'' ''P'' ''n.nn'',
          PaymentProcessed ''a@example.com'' ''P'' ''n.nn'']"
    by code_simp
  note c = confirmPayment_repeated [OF wf, of 3 "envAt 10" "sessionOf 1 role_buyer" "Some ''pi_1''"]
  have r1: "store (confirmTimes 3 (envAt 10) (sessionOf 1 role_buyer) (Some ''pi_1'') paymentPendingW)
       = store (snd (postPaymentsConfirm (envAt 10) paymentPendingW (sessionOf 1 role_buyer)
                       (Some ''pi_1'')))"
    using c [THEN conjunct1] by simp
  have r2: "outbox (confirmTimes 3 (envAt 10) (sessionOf 1 role_buyer) (Some ''pi_1'') paymentPendingW)
       = outbox paymentPendingW
         @ concat (replicate 3 (filter (sendMail (envAt 10))
                     (confirmationMails (envAt 10) (store paymentPendingW) paymentOne)))"
    using c [THEN conjunct2, THEN spec, THEN spec, THEN spec, THEN mp, OF h] .
  from wf r1 ms r2 show ?thesis by blast
qed

section \<open>Initiating a payment\<close>

text \<open>
  C6 as stated fails: for the first proposal, still pending, the buyer's request is
  answered with the client secret and a payment record is created; the same happens for
  the second proposal after it has been rejected.
\<close>

theorem initiatePayment_pending_counterexample:
  "getProposal twoPending 1 = Some proposalA \<and> pp_status proposalA = pending
   \<and> postCreatePaymentIntent (envAt 9) twoPending (sessionOf 1 role_buyer) (Some 1)
       = (Inr ''pi_1_secret'',
          twoPending\<lparr>paymentIdCounter := 2, payments := [(1, paymentOne)]\<rparr>)
   \<and> getProposal firstAccepted 2 = Some (proposalB\<lparr>pp_status := rejected\<rparr>)
   \<and> postCreatePaymentIntent (envAt 9) firstAccepted (sessionOf 1 role_buyer) (Some 2)
       = (Inr ''pi_1_secret'',
          firstAccepted\<lparr>paymentIdCounter := 2, payments := [(1, paymentOne\<lparr>pay_sellerId := 3\<rparr>)]\<rparr>)"
  by code_simp


text \<open>
  C6, amended. For a buyer's request on an existing proposal of an existing project: the
  answer is 403 and nothing is created when the caller is not the buyer of the project.
  For the buyer of the project the status of the proposal plays no part: when the gateway
  creates the intent, exactly one pending payment is appended, with the amount and the
  commission as the number built-ins print them, and the answer is the client secret;
  when the gateway call throws, the answer is 500 and nothing is created.
\<close>

theorem initiatePayment_outcomes:
  assumes "wf_storage s"
    and "isAuthenticated sess" and "checkRole role_buyer sess" and "pid \<noteq> 0"
    and "getProposal s pid = Some p"
    and "getProject s (pp_projectId p) = Some pj"
  shows "((\<forall>u. getCurrentUser s sess = Some u \<longrightarrow> u_id u \<noteq> pj_buyerId pj) \<longrightarrow>
            postCreatePaymentIntent e s sess (Some pid)
              = (Inl (Forbidden ''You don't have permission to make this payment''), s))
    \<and> (\<forall>u. getCurrentUser s sess = Some u \<and> u_id u = pj_buyerId pj \<longrightarrow>
          (paymentIntents_create e (js_round e (js_mul e (js_parseFloat e (pp_price p)) (js_100 e)))
              (pp_id p) (pj_id pj) (u_id u) (pp_sellerId p) = None \<longrightarrow>
            postCreatePaymentIntent e s sess (Some pid)
              = (Inl (InternalError ''Error creating payment intent''), s))
        \<and> (\<forall>intent.
            paymentIntents_create e (js_round e (js_mul e (js_parseFloat e (pp_price p)) (js_100 e)))
              (pp_id p) (pj_id pj) (u_id u) (pp_sellerId p) = Some intent \<longrightarrow>
            postCreatePaymentIntent e s sess (Some pid)
              = (Inr (pi_client_secret intent),
                 s\<lparr>paymentIdCounter := paymentIdCounter s + 1,
                   payments := payments s @
                     [(paymentIdCounter s,
                       \<lparr>pay_id = paymentIdCounter s,
                        pay_amount = js_toString e (js_parseFloat e (pp_price p)),
                        pay_commission =
                          js_toString e (js_mul e (js_parseFloat e (pp_price p)) (js_0_15 e)),
                        pay_status = pay_pending, pay_projectId = pj_id pj,
                        pay_buyerId = u_id u, pay_sellerId = pp_sellerId p,
                        pay_stripePaymentIntentId =
                          (if pi_id intent = [] then None else Some (pi_id intent)),
                        pay_createdAt = now e\<rparr>)]\<rparr>)))"
proof -
  have fresh: "paymentIdCounter s \<notin> fst ` set (payments s)"
    using assms(1) by (simp add: wf_storage_def below_fresh)
  have 1: "postCreatePaymentIntent e s sess (Some pid)
              = (Inl (Forbidden ''You don't have permission to make this payment''), s)"
    if "\<forall>u. getCurrentUser s sess = Some u \<longrightarrow> u_id u \<noteq> pj_buyerId pj"
    using assms(2-6) that by (simp add: postCreatePaymentIntent_def split: option.splits)
  have 2: "postCreatePaymentIntent e s sess (Some pid)
              = (Inl (InternalError ''Error creating payment intent''), s)"
    if "getCurrentUser s sess = Some u \<and> u_id u = pj_buyerId pj"
      and "paymentIntents_create e (js_round e (js_mul e (js_parseFloat e (pp_price p)) (js_100 e)))
              (pp_id p) (pj_id pj) (u_id u) (pp_sellerId p) = None" for u
    using assms(2-6) that by (simp add: postCreatePaymentIntent_def Let_def)
  have 3: "postCreatePaymentIntent e s sess (Some pid)
              = (Inr (pi_client_secret intent),
                 s\<lparr>paymentIdCounter := paymentIdCounter s + 1,
                   payments := payments s @
                     [(paymentIdCounter s,
                       \<lparr>pay_id = paymentIdCounter s,
                        pay_amount = js_toString e (js_parseFloat e (pp_price p)),
                        pay_commission =
                          js_toString e (js_mul e (js_parseFloat e (pp_price p)) (js_0_15 e)),
                        pay_status = pay_pending, pay_projectId = pj_id pj,
                        pay_buyerId = u_id u, pay_sellerId = pp_sellerId p,
                        pay_stripePaymentIntentId =
                          (if pi_id intent = [] then None else Some (pi_id intent)),
                        pay_createdAt = now e\<rparr>)]\<rparr>)"
    if "getCurrentUser s sess = Some u \<and> u_id u = pj_buyerId pj"
      and "paymentIntents_create e (js_round e (js_mul e (js_parseFloat e (pp_price p)) (js_100 e)))
              (pp_id p) (pj_id pj) (u_id u) (pp_sellerId p) = Some intent" for u intent
    using assms(2-6) that fresh
    by (simp add: postCreatePaymentIntent_def Let_def createPayment_def update_fresh)
  from 1 2 3 show ?thesis by blast
qed


theorem initiatePayment_outcomes_witness:
  "wf_storage twoPending \<and> getProposal twoPending 1 = Some proposalA
   \<and> pp_status proposalA = pending
   \<and> getCurrentUser twoPending (sessionOf 4 role_buyer) = Some otherBuyer
   \<and> postCreatePaymentIntent (envAt 9) twoPending (sessionOf 4 role_buyer) (Some 1)
       = (Inl (Forbidden ''You don't have permission to make this payment''), twoPending)
   \<and> getCurrentUser twoPending (sessionOf 1 role_buyer) = Some buyerUser
   \<and> postCreatePaymentIntent (envGatewayDown 9) twoPending (sessionOf 1 role_buyer) (Some 1)
       = (Inl (InternalError ''Error creating payment intent''), twoPending)
   \<and> postCreatePaymentIntent (envAt 9) twoPending (sessionOf 1 role_buyer) (Some 1)
       = (Inr ''pi_1_secret'',
          twoPending\<lparr>paymentIdCounter := paymentIdCounter twoPending + 1,
            payments := payments twoPending @ [(paymentIdCounter twoPending, paymentOne)]\<rparr>)"
proof -
  have wf: "wf_storage twoPending" by code_simp
  have a1: "isAuthenticated (sessionOf 1 role_buyer)" "checkRole role_buyer (sessionOf 1 role_buyer)"
    by code_simp+
  have a4: "isAuthenticated (sessionOf 4 role_buyer)" "checkRole role_buyer (sessionOf 4 role_buyer)"
    by code_simp+
  have n: "(1::nat) \<noteq> 0" by simp
  have p: "getProposal twoPending 1 = Some proposalA" by code_simp
  have pj: "getProject twoPending (pp_projectId proposalA) = Some projectP" by code_simp
  have u4: "getCurrentUser twoPending (sessionOf 4 role_buyer) = Some otherBuyer" by code_simp
  have u1: "getCurrentUser twoPending (sessionOf 1 role_buyer) = Some buyerUser" by code_simp
  have "u_id otherBuyer \<noteq> pj_buyerId projectP" by (simp add: otherBuyer_def projectP_def)
  then have o4: "\<forall>u. getCurrentUser twoPending (sessionOf 4 role_buyer) = Some u \<longrightarrow>
      u_id u \<noteq> pj_buyerId projectP"
    by (simp only: u4) simp
  have "u_id buyerUser = pj_buyerId projectP" by (simp add: buyerUser_def projectP_def)
  with u1 have o1: "getCurrentUser twoPending (sessionOf 1 role_buyer) = Some buyerUser
      \<and> u_id buyerUser = pj_buyerId projectP" by (rule conjI)
  have g0: "paymentIntents_create (envGatewayDown 9)
      (js_round (envGatewayDown 9) (js_mul (envGatewayDown 9)
         (js_parseFloat (envGatewayDown 9) (pp_price proposalA)) (js_100 (envGatewayDown 9))))
      (pp_id proposalA) (pj_id projectP) (u_id buyerUser) (pp_sellerId proposalA) = None"
    by (simp add: envGatewayDown_def)
  have g1: "paymentIntents_create (envAt 9)
      (js_round (envAt 9) (js_mul (envAt 9)
         (js_parseFloat (envAt 9) (pp_price proposalA)) (js_100 (envAt 9))))
      (pp_id proposalA) (pj_id projectP) (u_id buyerUser) (pp_sellerId proposalA)
      = Some \<lparr>pi_id = ''pi_1'', pi_client_secret = ''pi_1_secret''\<rparr>"
    by (simp add: envAt_def)
  have rec: "\<lparr>pay_id = paymentIdCounter twoPending,
        pay_amount = js_toString (envAt 9) (js_parseFloat (envAt 9) (pp_price proposalA)),
        pay_commission = js_toString (envAt 9)
          (js_mul (envAt 9) (js_parseFloat (envAt 9) (pp_price proposalA)) (js_0_15 (envAt 9))),
        pay_status = pay_pending, pay_projectId = pj_id projectP,
        pay_buyerId = u_id buyerUser, pay_sellerId = pp_sellerId proposalA,
        pay_stripePaymentIntentId =
          (if ''pi_1'' = [] then None else Some ''pi_1''),
        pay_createdAt = now (envAt 9)\<rparr> = paymentOne"
    by code_simp
  note c4 = initiatePayment_outcomes [OF wf a4 n p pj, of "envAt 9"]
  note c0 = initiatePayment_outcomes [OF wf a1 n p pj, of "envGatewayDown 9"]
  note c1 = initiatePayment_outcomes [OF wf a1 n p pj, of "envAt 9"]
  have r4: "postCreatePaymentIntent (envAt 9) twoPending (sessionOf 4 role_buyer) (Some 1)
       = (Inl (Forbidden ''You don't have permission to make this payment''), twoPending)"
    using c4 [THEN conjunct1, THEN mp, OF o4] .
  have r0: "postCreatePaymentIntent (envGatewayDown 9) twoPending (sessionOf 1 role_buyer) (Some 1)
       = (Inl (InternalError ''Error creating payment intent''), twoPending)"
    using c0 [THEN conjunct2, THEN spec, THEN mp, OF o1, THEN conjunct1, THEN mp, OF g0] .
  have r1: "postCreatePaymentIntent (envAt 9) twoPending (sessionOf 1 role_buyer) (Some 1)
       = (Inr ''pi_1_secret'',
          twoPending\<lparr>paymentIdCounter := paymentIdCounter twoPending + 1,
            payments := payments twoPending @ [(paymentIdCounter twoPending, paymentOne)]\<rparr>)"
    using c1 [THEN conjunct2, THEN spec, THEN mp, OF o1, THEN conjunct2, THEN spec, THEN mp, OF g1]
    by (simp only: paymentIntent.simps rec)
  have st: "pp_status proposalA = pending" by (simp add: proposalA_def)
  from wf p st u4 u1 r4 r0 r1 show ?thesis by blast
qed

section \<open>Well-formed stores\<close>

lemma keyed_fresh:
  "keyed idf al \<Longrightarrow> k \<notin> fst ` set al \<Longrightarrow> idf v = k \<Longrightarrow> keyed idf (AList.update k v al)"
  by (rule keyed_update)

lemma below_Suc: "below c al \<Longrightarrow> below (Suc c) al"
  by (auto simp: below_def list_all_iff)

lemma wf_MemStorage: "wf_storage MemStorage"
  by (simp add: wf_storage_def MemStorage_def keyed_def below_def)

lemma wf_createUser: "wf_storage s \<Longrightarrow> wf_storage (snd (createUser t s iu))"
  by (simp add: wf_storage_def createUser_def Let_def keyed_update below_update below_Suc)

lemma keys_update_present:
  "map_of al k = Some v \<Longrightarrow> fst ` set (AList.update k v' al) = fst ` set al"
  by (auto simp: AList.dom_update dest: map_of_SomeD intro: rev_image_eqI)

lemma list_all_mono': "list_all P xs \<Longrightarrow> (\<And>x. P x \<Longrightarrow> Q x) \<Longrightarrow> list_all Q xs"
  by (auto simp: list_all_iff)

lemma wf_createProject: "wf_storage s \<Longrightarrow> wf_storage (snd (createProject t s ip))"
proof -
  assume wf: "wf_storage s"
  have "list_all (\<lambda>(k, p). pp_projectId p \<in> fst ` set (AList.update (projectIdCounter s) v (projects s)))
      (proposals s)" for v
    using wf by (auto simp: wf_storage_def AList.dom_update list_all_iff)
  with wf show ?thesis
    by (simp add: wf_storage_def createProject_def Let_def keyed_update below_update below_Suc)
qed

lemma wf_updateProjectStatus: "wf_storage s \<Longrightarrow> wf_storage (snd (updateProjectStatus s i st))"
proof (cases "map_of (projects s) i")
  case None
  assume "wf_storage s"
  with None show ?thesis by (simp add: updateProjectStatus_def)
next
  case (Some pj)
  assume wf: "wf_storage s"
  have i: "pj_id pj = i" using wf Some by (auto simp: wf_storage_def intro: keyed_map_of)
  have lt: "i < projectIdCounter s" using wf Some by (auto simp: wf_storage_def intro: below_map_of)
  from wf Some i lt show ?thesis
    by (simp add: wf_storage_def updateProjectStatus_def Let_def keyed_update below_update
        keys_update_present)
qed

lemma wf_updateProposalStatus: "wf_storage s \<Longrightarrow> wf_storage (snd (updateProposalStatus s i st))"
proof (cases "map_of (proposals s) i")
  case None
  assume "wf_storage s"
  with None show ?thesis by (simp add: updateProposalStatus_def)
next
  case (Some p)
  assume wf: "wf_storage s"
  have i: "pp_id p = i" using wf Some by (auto simp: wf_storage_def intro: keyed_map_of)
  have lt: "i < proposalIdCounter s" using wf Some by (auto simp: wf_storage_def intro: below_map_of)
  have "(i, p) \<in> set (proposals s)" using Some by (rule map_of_SomeD)
  with wf have pk: "pp_projectId p \<in> fst ` set (projects s)"
    by (auto simp: wf_storage_def list_all_iff)
  from wf Some i lt pk show ?thesis
    by (simp add: wf_storage_def updateProposalStatus_def Let_def keyed_update below_update
        list_all_update)
qed

lemma wf_createProposal:
  "wf_storage s \<Longrightarrow> ipp_projectId v \<in> fst ` set (projects s) \<Longrightarrow>
     wf_storage (snd (createProposal t s v))"
  by (simp add: wf_storage_def createProposal_def Let_def keyed_update below_update below_Suc
      list_all_update)

lemma wf_createPayment: "wf_storage s \<Longrightarrow> wf_storage (snd (createPayment t s ip))"
  by (simp add: wf_storage_def createPayment_def Let_def keyed_update below_update below_Suc)

lemma wf_rejectOther: "wf_storage s \<Longrightarrow> wf_storage (rejectOther pid oth s)"
  by (simp add: rejectOther_def wf_updateProposalStatus)

lemma wf_fold_rejectOther: "wf_storage s \<Longrightarrow> wf_storage (fold (rejectOther pid) ops s)"
  by (induction ops arbitrary: s) (simp_all add: wf_rejectOther)

lemma wf_patchProposalStatus:
  "wf_storage s \<Longrightarrow> wf_storage (snd (patchProposalStatus s sess pid st))"
  by (auto simp: patchProposalStatus_def Let_def split_beta wf_updateProposalStatus
      wf_updateProjectStatus wf_fold_rejectOther split: option.splits)

lemma map_of_key: "map_of al k = Some v \<Longrightarrow> k \<in> fst ` set al"
  by (metis domI dom_map_of_conv_image_fst)

lemma postProposal_effect:
  "snd (postProposal e w sess P body) = w
   \<or> (\<exists>pj v. getProject (store w) P = Some pj \<and> pj_status pj = pj_open \<and> ipp_projectId v = P
         \<and> store (snd (postProposal e w sess P body)) = snd (createProposal (now e) (store w) v))"
  by (auto simp: postProposal_def Let_def split_beta dest: parse_fields split: option.splits)

lemma wf_postProposal:
  assumes "wf_storage (store w)"
  shows "wf_storage (store (snd (postProposal e w sess P body)))"
  using postProposal_effect [of e w sess P body]
proof (elim disjE exE conjE)
  assume "snd (postProposal e w sess P body) = w"
  with assms show ?thesis by simp
next
  fix pj v
  assume "getProject (store w) P = Some pj" and "ipp_projectId v = P"
    and r: "store (snd (postProposal e w sess P body)) = snd (createProposal (now e) (store w) v)"
  then have "ipp_projectId v \<in> fst ` set (projects (store w))"
    by (simp add: getProject_def map_of_key)
  with assms show ?thesis unfolding r by (rule wf_createProposal)
qed

lemma wf_postCreatePaymentIntent:
  "wf_storage s \<Longrightarrow> wf_storage (snd (postCreatePaymentIntent e s sess pid))"
  by (auto simp: postCreatePaymentIntent_def Let_def wf_createPayment split: option.splits)

lemma wf_step: "wf_storage (store w) \<Longrightarrow> wf_storage (store (step r w))"
  by (cases r)
    (simp_all add: wf_createUser wf_createProject wf_postProposal wf_patchProposalStatus
      wf_postCreatePaymentIntent confirm_wf)

lemma wf_run: "wf_storage (store w) \<Longrightarrow> wf_storage (store (run rs w))"
  unfolding run_def by (induction rs arbitrary: w) (simp_all add: wf_step)


section \<open>Accepted proposals along a run\<close>

lemma same_tables:
  assumes "proposals s' = proposals s" and "projects s' = projects s"
  shows "acceptedClosed s' = acceptedClosed s" and "acceptedAlone s' = acceptedAlone s"
  using assms by (simp_all add: acceptedClosed_def acceptedAlone_def getProposal_def getProject_def)

lemma tables_createUser:
  "proposals (snd (createUser t s iu)) = proposals s"
  "projects (snd (createUser t s iu)) = projects s"
  by (simp_all add: createUser_def Let_def)

lemma tables_postCreatePaymentIntent:
  "proposals (snd (postCreatePaymentIntent e s sess pid)) = proposals s"
  "projects (snd (postCreatePaymentIntent e s sess pid)) = projects s"
  by (auto simp: postCreatePaymentIntent_def createPayment_def Let_def split: option.splits)

lemma tables_postPaymentsConfirm:
  "proposals (store (snd (postPaymentsConfirm e w sess r))) = proposals (store w)"
  "projects (store (snd (postPaymentsConfirm e w sess r))) = projects (store w)"
  by (auto simp: postPaymentsConfirm_def updatePaymentStatus_def Let_def split_beta
      split: option.splits)

lemma patchProposalStatus_effect:
  "snd (patchProposalStatus s sess pid st) = s
   \<or> (\<exists>p stv. st = Some stv \<and> stv \<noteq> accepted \<and> getProposal s pid = Some p
         \<and> snd (patchProposalStatus s sess pid st)
             = s\<lparr>proposals := AList.update pid (p\<lparr>pp_status := stv\<rparr>) (proposals s)\<rparr>)
   \<or> (\<exists>p pj u. st = Some accepted \<and> isAuthenticated sess \<and> checkRole role_buyer sess
         \<and> getProposal s pid = Some p \<and> getProject s (pp_projectId p) = Some pj
         \<and> getCurrentUser s sess = Some u \<and> u_id u = pj_buyerId pj)"
  by (auto simp: patchProposalStatus_def updateProposalStatus_def getProposal_def Let_def
      split: option.splits)

lemma closed_createProject:
  assumes wf: "wf_storage s" and c: "acceptedClosed s"
  shows "acceptedClosed (snd (createProject t s ip))"
proof -
  have fresh: "getProject s (projectIdCounter s) = None"
    using wf below_fresh [of "projectIdCounter s" "projects s"]
    by (cases "getProject s (projectIdCounter s)")
      (auto simp: wf_storage_def getProject_def dest: map_of_key)
  have gp: "getProposal (snd (createProject t s ip)) q = getProposal s q" for q
    by (simp add: createProject_def Let_def getProposal_def)
  have gj: "k \<noteq> projectIdCounter s \<Longrightarrow> getProject (snd (createProject t s ip)) k = getProject s k" for k
    by (simp add: createProject_def Let_def getProject_def AList.update_conv')
  show ?thesis
    unfolding acceptedClosed_def
  proof (intro allI impI)
    fix q p
    assume "getProposal (snd (createProject t s ip)) q = Some p \<and> pp_status p = accepted"
    then have "getProposal s q = Some p \<and> pp_status p = accepted" by (simp add: gp)
    with c obtain pj where pj: "getProject s (pp_projectId p) = Some pj" "pj_status pj \<noteq> pj_open"
      unfolding acceptedClosed_def by blast
    with fresh have "pp_projectId p \<noteq> projectIdCounter s" by auto
    with pj show "\<exists>pj. getProject (snd (createProject t s ip)) (pp_projectId p) = Some pj
        \<and> pj_status pj \<noteq> pj_open"
      by (simp add: gj)
  qed
qed

lemma alone_createProject: "acceptedAlone s \<Longrightarrow> acceptedAlone (snd (createProject t s ip))"
  by (simp add: acceptedAlone_def createProject_def Let_def getProposal_def)

lemma getProposal_createProposal:
  "getProposal (snd (createProposal t s v)) q
     = (if q = proposalIdCounter s then Some (fst (createProposal t s v)) else getProposal s q)"
  by (simp add: createProposal_def Let_def getProposal_def AList.update_conv')

lemma getProject_createProposal:
  "getProject (snd (createProposal t s v)) k = getProject s k"
  by (simp add: createProposal_def Let_def getProject_def)

lemma closed_createProposal:
  "acceptedClosed s \<Longrightarrow> acceptedClosed (snd (createProposal t s v))"
  unfolding acceptedClosed_def
  by (auto simp: getProposal_createProposal getProject_createProposal fst_createProposal
      split: if_splits)

lemma alone_createProposal:
  assumes c: "acceptedClosed s" and a: "acceptedAlone s"
    and pj: "getProject s (ipp_projectId v) = Some pj" "pj_status pj = pj_open"
  shows "acceptedAlone (snd (createProposal t s v))"
  unfolding acceptedAlone_def
proof (intro allI impI)
  fix q p q' p'
  let ?s' = "snd (createProposal t s v)"
  assume h: "getProposal ?s' q = Some p \<and> getProposal ?s' q' = Some p'
      \<and> pp_status p = accepted \<and> pp_projectId p' = pp_projectId p \<and> q' \<noteq> q"
  then have q: "q \<noteq> proposalIdCounter s"
    by (auto simp: getProposal_createProposal fst_createProposal split: if_splits)
  with h have p: "getProposal s q = Some p" by (simp add: getProposal_createProposal)
  with h c obtain pj' where pj': "getProject s (pp_projectId p) = Some pj'" "pj_status pj' \<noteq> pj_open"
    unfolding acceptedClosed_def by blast
  show "pp_status p' \<noteq> accepted \<and> pp_status p' \<noteq> pending"
  proof (cases "q' = proposalIdCounter s")
    case True
    with h have "p' = fst (createProposal t s v)" by (simp add: getProposal_createProposal)
    then have "pp_projectId p' = ipp_projectId v" by (simp add: fst_createProposal)
    with h pj pj' show ?thesis by simp
  next
    case False
    with h have "getProposal s q' = Some p'" by (simp add: getProposal_createProposal)
    with a p h show ?thesis unfolding acceptedAlone_def by blast
  qed
qed


lemma closed_patchProposalStatus:
  assumes wf: "wf_storage s" and c: "acceptedClosed s"
  shows "acceptedClosed (snd (patchProposalStatus s sess pid st))"
  using patchProposalStatus_effect [of s sess pid st]
proof (elim disjE exE conjE)
  assume "snd (patchProposalStatus s sess pid st) = s"
  with c show ?thesis by simp
next
  fix p stv
  assume stv: "stv \<noteq> accepted" and p: "getProposal s pid = Some p"
    and r: "snd (patchProposalStatus s sess pid st)
        = s\<lparr>proposals := AList.update pid (p\<lparr>pp_status := stv\<rparr>) (proposals s)\<rparr>"
  show ?thesis
    unfolding r acceptedClosed_def
  proof (intro allI impI)
    fix q pq
    assume h: "getProposal (s\<lparr>proposals := AList.update pid (p\<lparr>pp_status := stv\<rparr>) (proposals s)\<rparr>) q
        = Some pq \<and> pp_status pq = accepted"
    with stv have "q \<noteq> pid" by (auto simp: getProposal_def AList.update_conv')
    with h have "getProposal s q = Some pq" by (simp add: getProposal_def AList.update_conv')
    with h c show "\<exists>pj. getProject (s\<lparr>proposals := AList.update pid (p\<lparr>pp_status := stv\<rparr>)
        (proposals s)\<rparr>) (pp_projectId pq) = Some pj \<and> pj_status pj \<noteq> pj_open"
      unfolding acceptedClosed_def by (simp add: getProject_def)
  qed
next
  fix p pj u
  assume st: "st = Some accepted"
    and au: "isAuthenticated sess" "checkRole role_buyer sess"
    and p: "getProposal s pid = Some p" and pj: "getProject s (pp_projectId p) = Some pj"
    and u: "getCurrentUser s sess = Some u" "u_id u = pj_buyerId pj"
  note kp = wf_storage_keyed(3) [OF wf] and kj = wf_storage_keyed(2) [OF wf]
  note gp = accept_proposals [OF kp kj au p pj u]
  have gj: "getProject (snd (patchProposalStatus s sess pid (Some accepted))) k
      = (if k = pp_projectId p then Some (pj\<lparr>pj_status := pj_in_progress\<rparr>) else getProject s k)" for k
    by (simp add: getProject_def accept_projects [OF kj au p pj u] AList.update_conv')
  show ?thesis
    unfolding st acceptedClosed_def
  proof (intro allI impI)
    fix q pq'
    assume h: "getProposal (snd (patchProposalStatus s sess pid (Some accepted))) q = Some pq'
        \<and> pp_status pq' = accepted"
    show "\<exists>pj. getProject (snd (patchProposalStatus s sess pid (Some accepted))) (pp_projectId pq')
        = Some pj \<and> pj_status pj \<noteq> pj_open"
    proof (cases "pp_projectId pq' = pp_projectId p")
      case True
      then show ?thesis by (simp add: gj)
    next
      case False
      from h obtain pq where pq: "getProposal s q = Some pq"
        by (auto simp: gp split: option.splits)
      with h False have "pq' = pq"
        by (auto simp: gp p split: if_splits)
      with h pq c obtain pj' where "getProject s (pp_projectId pq') = Some pj'"
          "pj_status pj' \<noteq> pj_open"
        unfolding acceptedClosed_def by blast
      with False show ?thesis by (simp add: gj)
    qed
  qed
qed

lemma alone_patchProposalStatus:
  assumes wf: "wf_storage s" and a: "acceptedAlone s"
    and g: "\<And>p. getProposal s pid = Some p \<Longrightarrow> pp_status p = pending"
  shows "acceptedAlone (snd (patchProposalStatus s sess pid st))"
  using patchProposalStatus_effect [of s sess pid st]
proof (elim disjE exE conjE)
  assume "snd (patchProposalStatus s sess pid st) = s"
  with a show ?thesis by simp
next
  fix p stv
  assume stv: "stv \<noteq> accepted" and p: "getProposal s pid = Some p"
    and r: "snd (patchProposalStatus s sess pid st)
        = s\<lparr>proposals := AList.update pid (p\<lparr>pp_status := stv\<rparr>) (proposals s)\<rparr>"
  have pend: "pp_status p = pending" using g [OF p] .
  have gp: "getProposal (snd (patchProposalStatus s sess pid st)) k
      = (if k = pid then Some (p\<lparr>pp_status := stv\<rparr>) else getProposal s k)" for k
    unfolding r by (simp add: getProposal_def AList.update_conv')
  show ?thesis
    unfolding acceptedAlone_def
  proof (intro allI impI)
    fix q x q' x'
    assume h: "getProposal (snd (patchProposalStatus s sess pid st)) q = Some x
        \<and> getProposal (snd (patchProposalStatus s sess pid st)) q' = Some x'
        \<and> pp_status x = accepted \<and> pp_projectId x' = pp_projectId x \<and> q' \<noteq> q"
    with stv have q: "q \<noteq> pid" by (auto simp: gp split: if_splits)
    with h have x: "getProposal s q = Some x" by (simp add: gp)
    show "pp_status x' \<noteq> accepted \<and> pp_status x' \<noteq> pending"
    proof (cases "q' = pid")
      case True
      with h have "pp_projectId p = pp_projectId x" by (auto simp: gp)
      with a x p h q have "pp_status p \<noteq> pending"
        unfolding acceptedAlone_def by blast
      with pend show ?thesis by simp
    next
      case False
      with h have "getProposal s q' = Some x'" by (simp add: gp)
      with a x h show ?thesis unfolding acceptedAlone_def by blast
    qed
  qed
next
  fix p pj u
  assume st: "st = Some accepted"
    and au: "isAuthenticated sess" "checkRole role_buyer sess"
    and p: "getProposal s pid = Some p" and pj: "getProject s (pp_projectId p) = Some pj"
    and u: "getCurrentUser s sess = Some u" "u_id u = pj_buyerId pj"
  have pend: "pp_status p = pending" using g [OF p] .
  note kp = wf_storage_keyed(3) [OF wf] and kj = wf_storage_keyed(2) [OF wf]
  note gp = accept_proposals [OF kp kj au p pj u]
  show ?thesis
    unfolding st acceptedAlone_def
  proof (intro allI impI)
    fix q x q' x'
    assume h: "getProposal (snd (patchProposalStatus s sess pid (Some accepted))) q = Some x
        \<and> getProposal (snd (patchProposalStatus s sess pid (Some accepted))) q' = Some x'
        \<and> pp_status x = accepted \<and> pp_projectId x' = pp_projectId x \<and> q' \<noteq> q"
    from h obtain y where y: "getProposal s q = Some y"
      by (auto simp: gp split: option.splits)
    from h obtain y' where y': "getProposal s q' = Some y'"
      by (auto simp: gp split: option.splits)
    have xy: "pp_projectId x = pp_projectId y" "pp_projectId x' = pp_projectId y'"
      using h y y' by (auto simp: gp split: if_splits)
    show "pp_status x' \<noteq> accepted \<and> pp_status x' \<noteq> pending"
    proof (cases "q = pid")
      case True
      with y p have yp: "y = p" by simp
      from True h have q': "q' \<noteq> pid" by simp
      show ?thesis
      proof (cases "pp_status y' = pending")
        case True
        with h y' q' xy yp show ?thesis by (auto simp: gp)
      next
        case False
        with h y' q' have same: "x' = y'" by (auto simp: gp)
        have "pp_status y' \<noteq> accepted"
        proof
          assume "pp_status y' = accepted"
          with a y' p xy yp h q' have "pp_status p \<noteq> pending"
            unfolding acceptedAlone_def by metis
          with pend show False by simp
        qed
        with False same show ?thesis by simp
      qed
    next
      case False
      with h y have xa: "x = y" "pp_status y = accepted"
        by (auto simp: gp split: if_splits)
      show ?thesis
      proof (cases "q' = pid")
        case True
        with y' p have "y' = p" by simp
        with a y p xa xy h False True have "pp_status p \<noteq> pending"
          unfolding acceptedAlone_def by metis
        with pend show ?thesis by simp
      next
        case q'n: False
        from a y y' xa xy h have ny: "pp_status y' \<noteq> accepted \<and> pp_status y' \<noteq> pending"
          unfolding acceptedAlone_def by metis
        with h y' q'n have "x' = y'" by (auto simp: gp)
        with ny show ?thesis by simp
      qed
    qed
  qed
qed


lemma closed_postProposal:
  assumes "acceptedClosed (store w)"
  shows "acceptedClosed (store (snd (postProposal e w sess P body)))"
  using postProposal_effect [of e w sess P body] assms
  by (auto simp: closed_createProposal)

lemma alone_postProposal:
  assumes "acceptedClosed (store w)" and "acceptedAlone (store w)"
  shows "acceptedAlone (store (snd (postProposal e w sess P body)))"
  using postProposal_effect [of e w sess P body]
proof (elim disjE exE conjE)
  assume "snd (postProposal e w sess P body) = w"
  with assms show ?thesis by simp
next
  fix pj v
  assume "getProject (store w) P = Some pj" "pj_status pj = pj_open" "ipp_projectId v = P"
    and r: "store (snd (postProposal e w sess P body)) = snd (createProposal (now e) (store w) v)"
  then show ?thesis
    unfolding r using alone_createProposal [OF assms, of v pj "now e"] by simp
qed

lemma closed_step:
  "wf_storage (store w) \<Longrightarrow> acceptedClosed (store w) \<Longrightarrow> acceptedClosed (store (step r w))"
  by (cases r)
    (simp_all add: closed_createProject closed_postProposal closed_patchProposalStatus
      same_tables(1) [OF tables_createUser] same_tables(1) [OF tables_postCreatePaymentIntent]
      same_tables(1) [OF tables_postPaymentsConfirm])

lemma alone_step:
  assumes "wf_storage (store w)" and "acceptedClosed (store w)" and "acceptedAlone (store w)"
    and "onPending r w"
  shows "acceptedAlone (store (step r w))"
proof (cases r)
  case (ProposalStatus sess pid st)
  with assms(4) have "\<And>p. getProposal (store w) pid = Some p \<Longrightarrow> pp_status p = pending"
    by simp
  from alone_patchProposalStatus [OF assms(1,3) this] ProposalStatus show ?thesis by simp
qed (use assms in \<open>simp_all add: alone_createProject alone_postProposal
      same_tables(2) [OF tables_createUser] same_tables(2) [OF tables_postCreatePaymentIntent]
      same_tables(2) [OF tables_postPaymentsConfirm]\<close>)

lemma closed_run:
  "wf_storage (store w) \<Longrightarrow> acceptedClosed (store w) \<Longrightarrow> acceptedClosed (store (run rs w))"
  unfolding run_def by (induction rs arbitrary: w) (simp_all add: wf_step closed_step)

lemma alone_run:
  "wf_storage (store w) \<Longrightarrow> acceptedClosed (store w) \<Longrightarrow> acceptedAlone (store w) \<Longrightarrow>
     onlyOnPending rs w \<Longrightarrow> acceptedAlone (store (run rs w))"
  unfolding run_def
  by (induction rs arbitrary: w) (simp_all add: wf_step closed_step alone_step)

lemma empty_invariants:
  "wf_storage (store emptyWorld)" "acceptedClosed (store emptyWorld)"
  "acceptedAlone (store emptyWorld)"
proof -
  show "wf_storage (store emptyWorld)" by (simp add: emptyWorld_def wf_MemStorage)
  show "acceptedClosed (store emptyWorld)"
    by (simp add: emptyWorld_def acceptedClosed_def getProposal_def MemStorage_def)
  show "acceptedAlone (store emptyWorld)"
    by (simp add: emptyWorld_def acceptedAlone_def getProposal_def MemStorage_def)
qed

lemma at_most_one:
  assumes "distinct ys" and "\<And>x y. x \<in> set ys \<Longrightarrow> y \<in> set ys \<Longrightarrow> x = y"
  shows "length ys \<le> 1"
proof (cases ys)
  case Nil
  then show ?thesis by simp
next
  case (Cons a zs)
  show ?thesis
  proof (cases zs)
    case Nil
    with Cons show ?thesis by simp
  next
    case (Cons b zs')
    with \<open>ys = a # zs\<close> assms(2) [of a b] have "a = b" by simp
    with Cons \<open>ys = a # zs\<close> assms(1) show ?thesis by simp
  qed
qed

lemma keyed_values_distinct: "keyed idf al \<Longrightarrow> distinct (map snd al)"
proof -
  assume k: "keyed idf al"
  then have "\<forall>x \<in> set al. idf (snd x) = fst x"
    by (auto simp: keyed_def list_all_iff)
  then have m: "map idf (map snd al) = map fst al"
    by (induction al) simp_all
  from k have "distinct (map fst al)" by (simp add: keyed_def)
  then have "distinct (map idf (map snd al))" by (simp only: m)
  then show ?thesis by (rule distinct_map [THEN iffD1, THEN conjunct1])
qed

lemma noOpenAccepted_of:
  assumes wf: "wf_storage s" and c: "acceptedClosed s"
  shows "noOpenAccepted s"
  unfolding noOpenAccepted_def list_all_iff
proof
  fix pj assume "pj \<in> set (map snd (projects s))"
  then have gj: "getProject s (pj_id pj) = Some pj"
    using keyed_mem [OF wf_storage_keyed(2) [OF wf], of pj] by (simp add: getProject_def)
  show "\<not> (pj_status pj = pj_open \<and> acceptedOn s (pj_id pj) \<noteq> [])"
  proof
    assume h: "pj_status pj = pj_open \<and> acceptedOn s (pj_id pj) \<noteq> []"
    then obtain p where "p \<in> set (acceptedOn s (pj_id pj))"
      by (cases "acceptedOn s (pj_id pj)") auto
    then have p: "p \<in> snd ` set (proposals s)" "pp_projectId p = pj_id pj" "pp_status p = accepted"
      by (auto simp: acceptedOn_def)
    from p(1) have "getProposal s (pp_id p) = Some p"
      using keyed_mem [OF wf_storage_keyed(3) [OF wf], of p] by (simp add: getProposal_def)
    with c p obtain pj' where "getProject s (pj_id pj) = Some pj'" "pj_status pj' \<noteq> pj_open"
      unfolding acceptedClosed_def by metis
    with gj h show False by simp
  qed
qed

lemma atMostOneAccepted_of:
  assumes wf: "wf_storage s" and a: "acceptedAlone s"
  shows "atMostOneAccepted s"
  unfolding atMostOneAccepted_def list_all_iff
proof
  fix pj assume "pj \<in> set (map snd (projects s))"
  note kp = wf_storage_keyed(3) [OF wf]
  have d: "distinct (acceptedOn s (pj_id pj))"
    unfolding acceptedOn_def using keyed_values_distinct [OF kp] by (rule distinct_filter)
  have e: "x = y" if "x \<in> set (acceptedOn s (pj_id pj))" "y \<in> set (acceptedOn s (pj_id pj))" for x y
  proof -
    from that have x: "getProposal s (pp_id x) = Some x" and y: "getProposal s (pp_id y) = Some y"
      and f: "pp_status x = accepted" "pp_status y = accepted" "pp_projectId y = pp_projectId x"
      using keyed_mem [OF kp] by (auto simp: acceptedOn_def getProposal_def)
    have "pp_id y = pp_id x"
    proof (rule ccontr)
      assume "pp_id y \<noteq> pp_id x"
      with a x y f have "pp_status y \<noteq> accepted" unfolding acceptedAlone_def by blast
      with f show False by simp
    qed
    with x y show ?thesis by simp
  qed
  show "length (acceptedOn s (pj_id pj)) \<le> 1"
    using d e by (rule at_most_one)
qed

text \<open>
  C1 as stated fails: after the buyer has accepted the first proposal, which rejects the
  second, the buyer accepts the second as well; the project then has two accepted
  proposals.
\<close>

theorem two_accepted_counterexample:
  "map pp_id (acceptedOn
      (store (run (scenario @ [acceptFirst, ProposalStatus (sessionOf 1 role_buyer) 2 (Some accepted)])
                emptyWorld)) 1) = [1, 2]
   \<and> \<not> atMostOneAccepted
      (store (run (scenario @ [acceptFirst, ProposalStatus (sessionOf 1 role_buyer) 2 (Some accepted)])
                emptyWorld))"
  by code_simp

text \<open>
  C1, amended. In every store reached from the empty one by the requests, no project is
  open while one of its proposals is accepted. When the status route is only used on
  proposals that are pending at that moment, every project has at most one accepted
  proposal.
\<close>

theorem accepted_along_runs:
  "noOpenAccepted (store (run rs emptyWorld))
   \<and> (onlyOnPending rs emptyWorld \<longrightarrow> atMostOneAccepted (store (run rs emptyWorld)))"
proof -
  note e = empty_invariants
  have wf: "wf_storage (store (run rs emptyWorld))" by (rule wf_run [OF e(1)])
  have 1: "noOpenAccepted (store (run rs emptyWorld))"
    by (rule noOpenAccepted_of [OF wf closed_run [OF e(1,2)]])
  have 2: "atMostOneAccepted (store (run rs emptyWorld))" if "onlyOnPending rs emptyWorld"
    by (rule atMostOneAccepted_of [OF wf alone_run [OF e that]])
  from 1 2 show ?thesis by blast
qed

theorem accepted_along_runs_witness:
  "onlyOnPending (scenario @ [acceptFirst]) emptyWorld
   \<and> map pp_id (acceptedOn (store (run (scenario @ [acceptFirst]) emptyWorld)) 1) = [1]
   \<and> noOpenAccepted (store (run (scenario @ [acceptFirst]) emptyWorld))
   \<and> atMostOneAccepted (store (run (scenario @ [acceptFirst]) emptyWorld))"
proof -
  have g: "onlyOnPending (scenario @ [acceptFirst]) emptyWorld" by code_simp
  have l: "map pp_id (acceptedOn (store (run (scenario @ [acceptFirst]) emptyWorld)) 1) = [1]"
    by code_simp
  note c = accepted_along_runs [of "scenario @ [acceptFirst]"]
  from c g l show ?thesis by blast
qed

section \<open>The commission of a payment\<close>

lemma payments_createUser: "payments (snd (createUser t s iu)) = payments s"
  by (simp add: createUser_def Let_def)

lemma payments_createProject: "payments (snd (createProject t s ip)) = payments s"
  by (simp add: createProject_def Let_def)

lemma payments_postProposal:
  "payments (store (snd (postProposal e w sess P body))) = payments (store w)"
  using postProposal_effect [of e w sess P body]
  by (auto simp: createProposal_def Let_def)

lemma payments_patchProposalStatus:
  "payments (snd (patchProposalStatus s sess pid st)) = payments s"
  by (auto simp: patchProposalStatus_def updateProposalStatus_def updateProjectStatus_def
      Let_def fold_rejectOther_frame split: option.splits)

lemma postCreatePaymentIntent_effect:
  "snd (postCreatePaymentIntent e s sess pid) = s
   \<or> (\<exists>q p a b c d. pid = Some q \<and> getProposal s q = Some p
         \<and> snd (postCreatePaymentIntent e s sess pid)
             = snd (createPayment (now e) s
                  \<lparr>ipay_amount = js_toString e (js_parseFloat e (pp_price p)),
                   ipay_commission =
                     js_toString e (js_mul e (js_parseFloat e (pp_price p)) (js_0_15 e)),
                   ipay_projectId = a, ipay_buyerId = b, ipay_sellerId = c,
                   ipay_stripePaymentIntentId = d\<rparr>))"
  by (simp add: postCreatePaymentIntent_def Let_def split: option.splits) blast

lemma map_of_createPayment:
  "map_of (payments (snd (createPayment t s ip))) i
     = (if i = paymentIdCounter s then Some (fst (createPayment t s ip)) else map_of (payments s) i)"
  by (simp add: createPayment_def Let_def AList.update_conv')

lemma fst_createPayment:
  "pay_amount (fst (createPayment t s ip)) = ipay_amount ip"
  "pay_commission (fst (createPayment t s ip)) = ipay_commission ip"
  by (simp_all add: createPayment_def Let_def)

lemma payment_counter_fresh:
  "wf_storage s \<Longrightarrow> map_of (payments s) (paymentIdCounter s) = None"
  using below_fresh [of "paymentIdCounter s" "payments s"]
  by (cases "map_of (payments s) (paymentIdCounter s)")
    (auto simp: wf_storage_def dest: map_of_key)

lemma confirm_payments:
  "map_of (payments (store (snd (postPaymentsConfirm e w sess r)))) i
     = map_of (payments (store w)) i
   \<or> (\<exists>pay. map_of (payments (store w)) i = Some pay
         \<and> map_of (payments (store (snd (postPaymentsConfirm e w sess r)))) i
             = Some (pay\<lparr>pay_status := pay_completed\<rparr>))"
  by (auto simp: postPaymentsConfirm_def updatePaymentStatus_def Let_def AList.update_conv'
      split: option.splits)

lemma step_keeps:
  assumes wf: "wf_storage (store w)" and i: "map_of (payments (store w)) i = Some pay"
  shows "\<exists>pay'. map_of (payments (store (step r w))) i = Some pay'
     \<and> pay_commission pay' = pay_commission pay \<and> pay_amount pay' = pay_amount pay"
proof (cases r)
  case (Register t iu)
  with i show ?thesis by (simp add: payments_createUser)
next
  case (NewProject t ip)
  with i show ?thesis by (simp add: payments_createProject)
next
  case (SubmitProposal e sess P body)
  with i show ?thesis by (simp add: payments_postProposal)
next
  case (ProposalStatus sess pid st)
  with i show ?thesis by (simp add: payments_patchProposalStatus)
next
  case (InitiatePayment e sess pid)
  from i payment_counter_fresh [OF wf] have "i \<noteq> paymentIdCounter (store w)" by auto
  with postCreatePaymentIntent_effect [of e "store w" sess pid] i InitiatePayment
  show ?thesis by (auto simp: map_of_createPayment)
next
  case (ConfirmPayment e sess ref)
  with confirm_payments [of e w sess ref i] i show ?thesis by auto
qed

lemma run_keeps:
  "wf_storage (store w) \<Longrightarrow> map_of (payments (store w)) i = Some pay \<Longrightarrow>
     \<exists>pay'. map_of (payments (store (run rs w))) i = Some pay'
       \<and> pay_commission pay' = pay_commission pay \<and> pay_amount pay' = pay_amount pay"
proof (induction rs arbitrary: w pay)
  case Nil
  then show ?case by (simp add: run_def)
next
  case (Cons r rs)
  from step_keeps [OF Cons.prems, of r] obtain pay1
    where 1: "map_of (payments (store (step r w))) i = Some pay1"
      "pay_commission pay1 = pay_commission pay" "pay_amount pay1 = pay_amount pay"
    by blast
  from Cons.IH [OF wf_step [OF Cons.prems(1)] 1(1)] 1(2,3)
  show ?case by (simp add: run_def)
qed

lemma step_creates:
  assumes "map_of (payments (store w)) i = None"
    and "map_of (payments (store (step r w))) i = Some pay"
  shows "\<exists>e sess q p. r = InitiatePayment e sess (Some q) \<and> getProposal (store w) q = Some p
     \<and> pay_amount pay = js_toString e (js_parseFloat e (pp_price p))
     \<and> pay_commission pay = js_toString e (js_mul e (js_parseFloat e (pp_price p)) (js_0_15 e))"
proof (cases r)
  case (Register t iu)
  with assms show ?thesis by (simp add: payments_createUser)
next
  case (NewProject t ip)
  with assms show ?thesis by (simp add: payments_createProject)
next
  case (SubmitProposal e sess P body)
  with assms show ?thesis by (simp add: payments_postProposal)
next
  case (ProposalStatus sess pid st)
  with assms show ?thesis by (simp add: payments_patchProposalStatus)
next
  case (InitiatePayment e sess pid)
  with postCreatePaymentIntent_effect [of e "store w" sess pid] assms
  show ?thesis by (auto simp: map_of_createPayment fst_createPayment split: if_splits)
next
  case (ConfirmPayment e sess ref)
  with confirm_payments [of e w sess ref i] assms show ?thesis by auto
qed

text \<open>
  C5 as stated fails: for the accepted proposal priced 1234.56 the payment is created
  with the commission 185.184, where 15 percent of 123456 cents rounded to the cent is
  18518 cents.
\<close>

theorem commission_not_rounded_counterexample:
  "map_option pay_amount
     (map_of (payments (snd (postCreatePaymentIntent (jsEnv 9) (acceptedAt ''1234.56'')
                               (sessionOf 1 role_buyer) (Some 1)))) 1) = Some ''1234.56''
   \<and> map_option pay_commission
     (map_of (payments (snd (postCreatePaymentIntent (jsEnv 9) (acceptedAt ''1234.56'')
                               (sessionOf 1 role_buyer) (Some 1)))) 1) = Some ''185.184''
   \<and> spec_commission_cents 123456 = 18518
   \<and> \<not> sameNumber (jsParseFloat ''185.184'') (ofDecimal 18518 (- 2))"
  by code_simp

text \<open>
  C5, amended. A payment appears in the table only through a payment initiation, and
  then its amount is the price of the proposal as \<open>parseFloat\<close> reads it and \<open>toString\<close>
  prints it, and its commission is that number times 0.15, printed the same way, with
  no rounding to the cent. Along every run the amount and the commission of a payment in
  the table stay what they are.
\<close>

theorem commission_fixed_at_creation:
  assumes "wf_storage (store w)"
  shows "(\<forall>i pay. map_of (payments (store w)) i = None
            \<and> map_of (payments (store (step r w))) i = Some pay \<longrightarrow>
          (\<exists>e sess q p. r = InitiatePayment e sess (Some q) \<and> getProposal (store w) q = Some p
             \<and> pay_amount pay = js_toString e (js_parseFloat e (pp_price p))
             \<and> pay_commission pay
                 = js_toString e (js_mul e (js_parseFloat e (pp_price p)) (js_0_15 e))))
    \<and> (\<forall>i pay. map_of (payments (store w)) i = Some pay \<longrightarrow>
          (\<exists>pay'. map_of (payments (store (run rs w))) i = Some pay'
             \<and> pay_commission pay' = pay_commission pay \<and> pay_amount pay' = pay_amount pay))"
  using step_creates [of w _ r] run_keeps [OF assms, of _ _ rs] by blast


theorem commission_fixed_at_creation_witness:
  "wf_storage (store (acceptedW ''800''))
   \<and> map_of (payments (store (acceptedW ''800''))) 1 = None
   \<and> map_of (payments (store (step initiate (acceptedW ''800'')))) 1 = Some payment800
   \<and> pay_amount payment800 = ''800'' \<and> pay_commission payment800 = ''120''
   \<and> (\<exists>e sess q p. initiate = InitiatePayment e sess (Some q)
         \<and> getProposal (store (acceptedW ''800'')) q = Some p
         \<and> pay_amount payment800 = js_toString e (js_parseFloat e (pp_price p))
         \<and> pay_commission payment800
             = js_toString e (js_mul e (js_parseFloat e (pp_price p)) (js_0_15 e)))
   \<and> wf_storage (store (step initiate (acceptedW ''800'')))
   \<and> (\<exists>pay'. map_of (payments (store (run [confirm] (step initiate (acceptedW ''800''))))) 1
                = Some pay'
         \<and> pay_commission pay' = pay_commission payment800
         \<and> pay_amount pay' = pay_amount payment800)"
proof -
  have wf0: "wf_storage (store (acceptedW ''800''))" by code_simp
  have n: "map_of (payments (store (acceptedW ''800''))) 1 = None" by code_simp
  have c: "map_of (payments (store (step initiate (acceptedW ''800'')))) 1 = Some payment800"
    by code_simp
  have f: "pay_amount payment800 = ''800''" "pay_commission payment800 = ''120''"
    by (simp_all add: payment800_def)
  have wf1: "wf_storage (store (step initiate (acceptedW ''800'')))" by code_simp
  note t1 = commission_fixed_at_creation [OF wf0, of initiate, THEN conjunct1,
      THEN spec, THEN spec, THEN mp, OF conjI [OF n c]]
  note t2 = commission_fixed_at_creation [OF wf1, where rs = "[confirm]", THEN conjunct2,
      THEN spec, THEN spec, THEN mp, OF c]
  from wf0 n c f t1 wf1 t2 show ?thesis by (intro conjI)
qed

end
